theory Spec2Isabelle
  imports Main "HOL-Library.Word"
begin

section \<open>Bytes, C strings and native integers\<close>

text \<open>
  A byte is a \<^typ>\<open>char\<close>; memory, file contents and C strings are \<^typ>\<open>string\<close>s.
  The source stores integers in the byte order of the machine; the model fixes the
  least significant byte first, and 8-byte pointers.
\<close>

abbreviation NUL :: char where
  "NUL \<equiv> CHR 0x00"

abbreviation NL :: char where
  "NL \<equiv> CHR 0x0A"

type_synonym time_t = "64 word"

abbreviation EXIT_SUCCESS :: int where
  "EXIT_SUCCESS \<equiv> 0"

abbreviation EXIT_FAILURE :: int where
  "EXIT_FAILURE \<equiv> 1"

definition NCNTF_RULES_SIZE :: nat where
  "NCNTF_RULES_SIZE = 1024 * 1024"

definition MAGIC_NAME :: string where
  "MAGIC_NAME = ''NCSTREAM''"

definition MAGIC_VERSION :: "16 word" where
  "MAGIC_VERSION = 0xFF01"

definition NC_NTF_DBUS_PATH :: string where
  "NC_NTF_DBUS_PATH = ''/libnetconf/notifications/stream''"

definition NC_NTF_DBUS_INTERFACE :: string where
  "NC_NTF_DBUS_INTERFACE = ''libnetconf.notifications.stream''"

text \<open>\<open>le_bytes k n\<close>: the \<open>k\<close> bytes of an integer variable holding \<open>n\<close>.\<close>

fun le_bytes :: "nat \<Rightarrow> nat \<Rightarrow> string" where
  "le_bytes 0 n = []"
| "le_bytes (Suc k) n = char_of (n mod 256) # le_bytes k (n div 256)"

text \<open>The value of an integer variable whose bytes are given.\<close>

fun le_nat :: "string \<Rightarrow> nat" where
  "le_nat [] = 0"
| "le_nat (c # cs) = of_char c + 256 * le_nat cs"

text \<open>The C string that starts at the first byte of a piece of memory.\<close>

definition c_str :: "string \<Rightarrow> string" where
  "c_str m = takeWhile (\<lambda>c. c \<noteq> NUL) m"

text \<open>
  \<open>read(fd, buf, n)\<close> on a regular file with content \<open>f\<close> at offset \<open>pos\<close> delivers the
  bytes that are there, at most \<open>n\<close>; its return value is their number.
\<close>

definition read_at :: "string \<Rightarrow> nat \<Rightarrow> nat \<Rightarrow> string" where
  "read_at f pos n = take n (drop pos f)"

text \<open>
  A buffer after a read that delivered \<open>got\<close>: the bytes read, then what the buffer held
  before.
\<close>

definition fill :: "string \<Rightarrow> string \<Rightarrow> string" where
  "fill got old = got @ drop (length got) old"

text \<open>
  Memory after \<open>bs\<close> was copied to offset \<open>off\<close> of the region \<open>m\<close>, for \<open>off\<close> within
  the region. When the copy runs over the end of the region the image is longer than
  \<open>m\<close>: the bytes beyond \<open>length m\<close> are the ones written outside the region.
\<close>

definition mem_write :: "nat \<Rightarrow> string \<Rightarrow> string \<Rightarrow> string" where
  "mem_write off bs m = take off m @ bs @ drop (off + length bs) m"

section \<open>The environment\<close>

datatype errno = EAGAIN | EINTR | EIO | ENOSPC

datatype write_result = Written | WriteError errno

datatype dbus_fault =
  NewSignalFailed | AppendTimestampFailed | AppendContentFailed | SendFailed

datatype xmlDoc = XmlDoc (root_name: "string option")

datatype NC_SESSION_TERM_REASON =
  NC_SESSION_TERM_CLOSED | NC_SESSION_TERM_KILLED | NC_SESSION_TERM_DROPPED
| NC_SESSION_TERM_TIMEOUT | NC_SESSION_TERM_BADHELLO | NC_SESSION_TERM_OTHER

text \<open>
  What the operating system, libxml2, D-Bus and the rest of the library answer.
  System calls on the files of a stream are keyed by the stream's name. A list of
  \<^typ>\<open>write_result\<close>s scripts the successive \<open>write\<close> calls on one file; once it is
  used up every further call succeeds. Memory allocation (\<open>malloc\<close>, \<open>strdup\<close>,
  \<open>asprintf\<close>) is taken to succeed.
\<close>

record env =
  time_now :: time_t
  disk :: "string \<Rightarrow> string option"
  open_fails :: "string \<Rightarrow> bool"
  mmap_fails :: "string \<Rightarrow> bool"
  lockf_fails :: "string \<Rightarrow> bool"
  ulockf_fails :: "string \<Rightarrow> bool"
  ftruncate_fails :: "string \<Rightarrow> bool"
  write_results :: "string \<Rightarrow> write_result list"
  uninit :: "string \<Rightarrow> string"
  header_addr :: "64 word"
  nc_time2datetime :: "time_t \<Rightarrow> string option"
  nc_datetime2time :: "string \<Rightarrow> time_t"
  xmlReadMemory :: "string \<Rightarrow> xmlDoc option"
  nc_session_term_string :: "NC_SESSION_TERM_REASON \<Rightarrow> string"
  dbus_faults :: "string \<Rightarrow> dbus_fault option"

text \<open>
  \<open>while (((r = write(...)) == -1) && (errno == EAGAIN || errno == EINTR));\<close>
  The result is whether \<open>r\<close> differs from \<open>-1\<close>, and the rest of the script.
\<close>

fun write_retry :: "write_result list \<Rightarrow> bool \<times> write_result list" where
  "write_retry [] = (True, [])"
| "write_retry (Written # ws) = (True, ws)"
| "write_retry (WriteError e # ws) =
     (if e = EAGAIN \<or> e = EINTR then write_retry ws else (False, ws))"

section \<open>Streams\<close>

text \<open>
  \<open>struct stream\<close>. A file descriptor is the path it was opened on (\<open>None\<close> for \<open>-1\<close>);
  \<open>events_file\<close> and \<open>events_pos\<close> are the content and the file offset behind
  \<open>fd_events\<close>; \<open>rules\<close> is the memory at the mapping of the rules file (\<open>None\<close> for
  \<open>NULL\<close>); \<open>data\<close> is kept without the wrap-around of \<open>unsigned int\<close>. The list
  \<open>streams\<close> of the source is a list of these, head first.
\<close>

record stream =
  fd_events :: "string option"
  fd_rules :: "string option"
  name :: string
  desc :: "string option"
  replay :: "8 word"
  created :: time_t
  locked :: int
  rules :: "string option"
  data :: nat
  events_file :: string
  events_pos :: nat

datatype dbus_arg = DBUS_TYPE_UINT64 "64 word" | DBUS_TYPE_STRING string | DBUS_TYPE_OTHER

record dbus_message =
  msg_is_signal :: bool
  msg_interface :: string
  msg_member :: string
  msg_args :: "dbus_arg list"

text \<open>
  The globals of the file: \<open>ncntf_config\<close> (is it set), \<open>streams_path\<close>, \<open>streams\<close>,
  the D-Bus connection \<open>dbus\<close> (is it set, is it still connected, the match rules
  added to it, the messages waiting on it, the signals sent so far as object path,
  timestamp and text) and the value of the thread-specific key \<open>ncntf_replay_done\<close>
  (\<open>None\<close> where the key has no value).
\<close>

record ncntf =
  ncntf_config :: bool
  streams_path :: "string option"
  streams :: "stream list"
  dbus :: bool
  dbus_connected :: bool
  dbus_matches :: "string list"
  dbus_incoming :: "dbus_message list"
  dbus_sent :: "(string \<times> 64 word \<times> string) list"
  ncntf_replay_done :: "int option"

definition path_text :: "string option \<Rightarrow> string" where
  "path_text p = (case p of None \<Rightarrow> ''(null)'' | Some d \<Rightarrow> d)"

subsection \<open>The file header\<close>

text \<open>The header that \<open>write_fileheader\<close> prepares in its buffer \<open>header\<close>.\<close>

definition header_buffer :: "stream \<Rightarrow> string" where
  "header_buffer s =
     (let len1 = (length (name s) mod 65536 + 1) mod 65536;
          d = (case desc s of None \<Rightarrow> [] | Some t \<Rightarrow> t);
          len2 = (case desc s of None \<Rightarrow> 1 | Some t \<Rightarrow> (length t mod 65536 + 1) mod 65536)
      in MAGIC_NAME @ le_bytes 2 (unat MAGIC_VERSION)
         @ le_bytes 2 len1 @ take len1 (name s @ [NUL])
         @ le_bytes 2 len2 @ take len2 (d @ [NUL])
         @ [char_of (unat (replay s))]
         @ le_bytes 8 (unat (created s)))"

text \<open>
  \<open>write_fileheader\<close>. The call \<open>write(s->fd_events, &header, offset)\<close> passes the
  address of the variable \<open>header\<close>: what reaches the file are \<open>offset\<close> bytes of the
  stack from that variable on, that is the pointer it holds (\<open>header_addr\<close>) and
  what follows it (\<open>uninit e ''stack''\<close>).
\<close>

definition write_fileheader :: "env \<Rightarrow> string option \<Rightarrow> stream \<Rightarrow> int \<times> stream" where
  "write_fileheader e sp s =
     (if sp = None then (EXIT_FAILURE, s)
      else
        let filepath = path_text sp @ ''/'' @ name s @ ''.events'' in
        if fd_events s = None \<and> open_fails e filepath then (EXIT_FAILURE, s)
        else if fd_events s \<noteq> None \<and> ftruncate_fails e (name s) then (EXIT_FAILURE, s)
        else
          let s1 = s\<lparr>fd_events := (if fd_events s = None then Some filepath else fd_events s),
                     events_file := [], events_pos := 0\<rparr>;
              offset = length (header_buffer s);
              written = take offset (le_bytes 8 (unat (header_addr e)) @ uninit e ''stack'')
          in if fst (write_retry (write_results e (name s)))
             then (EXIT_SUCCESS,
                   s1\<lparr>events_file := written, events_pos := length written,
                      data := length written\<rparr>)
             else (EXIT_FAILURE, s1))"

text \<open>
  \<open>read_fileheader\<close>. \<open>None\<close> is the \<open>NULL\<close> result. A read that delivers no byte fails;
  one that delivers fewer bytes than asked leaves the rest of the variable as it was.
\<close>

definition read_fileheader :: "env \<Rightarrow> string \<Rightarrow> stream option" where
  "read_fileheader e filepath =
     (case (if open_fails e filepath then None else disk e filepath) of
        None \<Rightarrow> None
      | Some f \<Rightarrow>
         let r1 = read_at f 0 8 in
         if r1 = [] then None
         else if fill r1 (take 8 (uninit e ''magic_name'')) \<noteq> MAGIC_NAME then None
         else
           let p1 = length r1; r2 = read_at f p1 2 in
           if r2 = [] then None
           else
             let p2 = p1 + length r2; r3 = read_at f p2 2 in
             if r3 = [] then None
             else
               let len1 = le_nat (fill r3 (take 2 (uninit e ''len'')));
                   p3 = p2 + length r3; r4 = read_at f p3 len1 in
               if r4 = [] then None
               else
                 let nm = c_str (fill r4 (take len1 (uninit e ''name'')));
                     p4 = p3 + length r4; r5 = read_at f p4 2 in
                 if r5 = [] then None
                 else
                   let len2 = le_nat (fill r5 (le_bytes 2 len1));
                       p5 = p4 + length r5; r6 = read_at f p5 len2 in
                   if r6 = [] then None
                   else
                     let ds = c_str (fill r6 (take len2 (uninit e ''desc'')));
                         p6 = p5 + length r6; r7 = read_at f p6 1 in
                     if r7 = [] then None
                     else
                       let p7 = p6 + length r7; r8 = read_at f p7 8 in
                       if r8 = [] then None
                       else
                         Some \<lparr>fd_events = Some filepath, fd_rules = None, name = nm,
                               desc = Some ds, replay = of_nat (le_nat r7),
                               created = of_nat (le_nat (fill r8 (take 8 (uninit e ''t'')))),
                               locked = 0, rules = None, data = p7 + length r8,
                               events_file = f, events_pos = p7 + length r8\<rparr>)"

subsection \<open>The rules file\<close>

text \<open>
  \<open>map_rules\<close>. A file that is absent is created as \<open>NCNTF_RULES_SIZE\<close> zero bytes; the
  mapping shows \<open>NCNTF_RULES_SIZE\<close> bytes of the file, zero where the file is shorter.
\<close>

definition map_rules :: "env \<Rightarrow> string option \<Rightarrow> stream \<Rightarrow> int \<times> stream" where
  "map_rules e sp s =
     (if sp = None then (EXIT_FAILURE, s)
      else
        let filepath = path_text sp @ ''/'' @ name s @ ''.rules'';
            existing = (case disk e filepath of
                          None \<Rightarrow> replicate NCNTF_RULES_SIZE NUL
                        | Some f \<Rightarrow> take NCNTF_RULES_SIZE f
                                    @ replicate (NCNTF_RULES_SIZE - length f) NUL)
        in if fd_rules s = None \<and> open_fails e filepath then (EXIT_FAILURE, s)
           else
             let s1 = s\<lparr>fd_rules := (if fd_rules s = None then Some filepath else fd_rules s)\<rparr>
             in if mmap_fails e filepath then (EXIT_FAILURE, s1)
                else (EXIT_SUCCESS, s1\<lparr>rules := Some existing\<rparr>))"

subsection \<open>Looking a stream up\<close>

fun find_stream :: "string \<Rightarrow> stream list \<Rightarrow> nat option" where
  "find_stream n [] = None"
| "find_stream n (s # ss) =
     (if name s = n then Some 0 else map_option Suc (find_stream n ss))"

text \<open>
  \<open>ncntf_stream_get\<close>. The result is the position of the stream in the list of the
  state returned (\<open>None\<close> for \<open>NULL\<close>): the list itself when the name is found there,
  the list with the stream loaded from the directory in front otherwise.
\<close>

definition ncntf_stream_get :: "env \<Rightarrow> ncntf \<Rightarrow> string option \<Rightarrow> nat option \<times> ncntf" where
  "ncntf_stream_get e st stream =
     (case stream of
        None \<Rightarrow> (None, st)
      | Some n \<Rightarrow>
         (case find_stream n (streams st) of
            Some i \<Rightarrow> (Some i, st)
          | None \<Rightarrow>
             (case read_fileheader e (path_text (streams_path st) @ ''/'' @ n @ ''.events'') of
                None \<Rightarrow> (None, st)
              | Some s \<Rightarrow>
                 (case map_rules e (streams_path st) s of
                    (r, s') \<Rightarrow>
                      if r = 0 then (Some 0, st\<lparr>streams := s' # streams st\<rparr>)
                      else (None, st)))))"

definition ncntf_stream_lock :: "env \<Rightarrow> stream \<Rightarrow> int \<times> stream" where
  "ncntf_stream_lock e s =
     (if lockf_fails e (name s) then (EXIT_FAILURE, s)
      else (EXIT_SUCCESS, s\<lparr>locked := 1\<rparr>))"

definition ncntf_stream_unlock :: "env \<Rightarrow> stream \<Rightarrow> int \<times> stream" where
  "ncntf_stream_unlock e s =
     (if locked s = 0 then (EXIT_SUCCESS, s)
      else if ulockf_fails e (name s) then (EXIT_FAILURE, s)
      else (EXIT_SUCCESS, s\<lparr>locked := 0\<rparr>))"

subsection \<open>The allowed events of a stream\<close>

text \<open>
  The tokens that the calls \<open>strtok(rules, "\n")\<close>, \<open>strtok(NULL, "\n")\<close>, ... deliver:
  the non-empty runs between newlines. The second argument collects the run being
  read, last character first.
\<close>

fun strtok_tokens :: "string \<Rightarrow> string \<Rightarrow> string list" where
  "strtok_tokens [] acc = (if acc = [] then [] else [rev acc])"
| "strtok_tokens (c # cs) acc =
     (if c = NL then (if acc = [] then strtok_tokens cs [] else rev acc # strtok_tokens cs [])
      else strtok_tokens cs (c # acc))"

text \<open>
  \<open>ncntf_event_isallowed\<close>. Every stream of the list has its rules mapped; for a stream
  without a mapping, where the source would read through a \<open>NULL\<close> pointer, the rules
  count as empty.
\<close>

definition ncntf_event_isallowed ::
  "env \<Rightarrow> ncntf \<Rightarrow> string option \<Rightarrow> string option \<Rightarrow> int \<times> ncntf" where
  "ncntf_event_isallowed e st stream event =
     (if stream = None \<or> event = None then (0, st)
      else
        case ncntf_stream_get e st stream of
          (None, st') \<Rightarrow> (0, st')
        | (Some i, st') \<Rightarrow>
            let rs = (case rules (streams st' ! i) of None \<Rightarrow> [] | Some m \<Rightarrow> c_str m) in
            if the event \<in> set (strtok_tokens rs []) then (1, st') else (0, st'))"

text \<open>\<open>strrchr(m, '\n')\<close>: the offset of the last newline of the C string at \<open>m\<close>.\<close>

fun strrchr_nl :: "string \<Rightarrow> nat option" where
  "strrchr_nl [] = None"
| "strrchr_nl (c # cs) =
     (case strrchr_nl cs of
        Some i \<Rightarrow> Some (Suc i)
      | None \<Rightarrow> if c = NL then Some 0 else None)"

definition ncntf_stream_allow_events ::
  "env \<Rightarrow> ncntf \<Rightarrow> string option \<Rightarrow> string option \<Rightarrow> int \<times> ncntf" where
  "ncntf_stream_allow_events e st stream event =
     (if stream = None \<or> event = None then (EXIT_FAILURE, st)
      else
        case ncntf_event_isallowed e st stream event of
          (a, st1) \<Rightarrow>
            if a \<noteq> 0 then (EXIT_SUCCESS, st1)
            else
              case ncntf_stream_get e st1 stream of
                (None, st2) \<Rightarrow> (EXIT_FAILURE, st2)
              | (Some i, st2) \<Rightarrow>
                  let s = streams st2 ! i;
                      m = (case rules s of None \<Rightarrow> [] | Some m \<Rightarrow> m);
                      endp = (case strrchr_nl (c_str m) of None \<Rightarrow> 0 | Some k \<Rightarrow> Suc k);
                      m1 = mem_write endp (the event @ [NUL]) m;
                      m2 = mem_write (endp + length (the event)) [NL, NUL] m1
                  in (EXIT_SUCCESS,
                      st2\<lparr>streams := (streams st2)[i := s\<lparr>rules := Some m2\<rparr>]\<rparr>))"

subsection \<open>Creating a stream\<close>

definition ncntf_stream_new :: "env \<Rightarrow> ncntf \<Rightarrow> string \<Rightarrow> string \<Rightarrow> int \<Rightarrow> int \<times> ncntf" where
  "ncntf_stream_new e st nm ds rp =
     (if \<not> ncntf_config st then (EXIT_FAILURE, st)
      else if find_stream nm (streams st) \<noteq> None then (EXIT_FAILURE, st)
      else
        let s = \<lparr>fd_events = None, fd_rules = None, name = nm, desc = Some ds,
                 replay = of_int rp, created = time_now e, locked = 0, rules = None,
                 data = 0, events_file = [], events_pos = 0\<rparr>
        in case write_fileheader e (streams_path st) s of
             (r1, s1) \<Rightarrow>
               if r1 \<noteq> 0 then (EXIT_FAILURE, st)
               else
                 case map_rules e (streams_path st) s1 of
                   (r2, s2) \<Rightarrow>
                     if r2 \<noteq> 0 then (EXIT_FAILURE, st)
                     else (EXIT_SUCCESS, st\<lparr>streams := s2 # streams st\<rparr>))"

section \<open>Publishing an event\<close>

text \<open>
  The enumerations and the session structure are declared in headers that are not
  among the sources. Of a session only the three fields printed here are kept.
  \<open>NCNTF_EVENT_BY\<close> has the two members that the \<open>switch (by)\<close> names; a value outside
  the enumeration is not an input of the model.
\<close>

datatype NC_DATASTORE =
  NC_DATASTORE_ERROR | NC_DATASTORE_CONFIG | NC_DATASTORE_URL | NC_DATASTORE_RUNNING
| NC_DATASTORE_STARTUP | NC_DATASTORE_CANDIDATE

datatype NCNTF_EVENT_BY = NCNTF_EVENT_BY_SERVER | NCNTF_EVENT_BY_USER

record nc_session =
  username :: string
  session_id :: string
  hostname :: string

text \<open>
  The event kind together with the variadic parameters that \<open>ncntf_event_new\<close> reads
  for it; \<open>None\<close> is a \<open>NULL\<close> pointer. \<open>NCNTF_OTHER\<close> stands for every kind that the
  \<open>switch\<close> sends to \<open>default\<close>.
\<close>

datatype NCNTF_EVENT =
  NCNTF_GENERIC "string option"
| NCNTF_BASE_CFG_CHANGE NC_DATASTORE NCNTF_EVENT_BY "nc_session option"
| NCNTF_BASE_CPBLT_CHANGE "string list" "string list" NCNTF_EVENT_BY "nc_session option"
| NCNTF_BASE_SESSION_START "nc_session option"
| NCNTF_BASE_SESSION_END "nc_session option" NC_SESSION_TERM_REASON "string option"
| NCNTF_OTHER

definition NC_NS_NOTIFICATIONS :: string where
  \<comment> \<open>Modelled from the spec: the macro is defined in a header that is not part of the
      sources; the value is the namespace of the notification envelope.\<close>
  "NC_NS_NOTIFICATIONS = ''urn:ietf:params:xml:ns:netconf:notification:1.0''"

definition user_text :: "nc_session \<Rightarrow> string" where
  "user_text session =
     ''<username>'' @ username session @ ''</username>''
     @ ''<session-id>'' @ session_id session @ ''</session-id>''
     @ ''<source-host>'' @ hostname session @ ''</source-host>''"

text \<open>The \<open>switch (by)\<close>: \<open>None\<close> is the return on a missing session.\<close>

definition changed_by :: "NCNTF_EVENT_BY \<Rightarrow> nc_session option \<Rightarrow> string option" where
  "changed_by by session =
     (case by of
        NCNTF_EVENT_BY_SERVER \<Rightarrow> Some ''<server/>''
      | NCNTF_EVENT_BY_USER \<Rightarrow> map_option user_text session)"

text \<open>The length of a capability URI without its parameters.\<close>

definition poffset :: "string \<Rightarrow> nat" where
  "poffset c = length (takeWhile (\<lambda>x. x \<noteq> CHR ''?'') c)"

text \<open>\<open>strncmp(a, b, n) == 0\<close> for \<open>n\<close> not beyond the end of \<open>a\<close>.\<close>

definition strncmp_eq :: "string \<Rightarrow> string \<Rightarrow> nat \<Rightarrow> bool" where
  "strncmp_eq a b n = (take n a = take n b)"

definition new_capability :: "string list \<Rightarrow> string \<Rightarrow> string" where
  "new_capability old c =
     (case find (\<lambda>oc. strncmp_eq c oc (poffset c)) old of
        Some oc \<Rightarrow>
          if (length oc = poffset c \<or> oc ! poffset c = CHR ''?'') \<and> c \<noteq> oc
          then ''<modified-capability>'' @ c @ ''</modified-capability>''
          else []
      | None \<Rightarrow> ''<added-capability>'' @ c @ ''</added-capability>'')"

definition old_capability :: "string list \<Rightarrow> string \<Rightarrow> string" where
  "old_capability new c =
     (case find (\<lambda>n. strncmp_eq n c (poffset c)) new of
        Some n \<Rightarrow> []
      | None \<Rightarrow> ''<deleted-capability>'' @ c @ ''</deleted-capability>'')"

text \<open>The \<open>switch (event)\<close>: the content of the event, \<open>None\<close> where it returns.\<close>

fun event_content :: "env \<Rightarrow> NCNTF_EVENT \<Rightarrow> string option" where
  "event_content e (NCNTF_GENERIC content) = content"
| "event_content e (NCNTF_BASE_CFG_CHANGE ds by session) =
     (case (case ds of NC_DATASTORE_STARTUP \<Rightarrow> Some ''startup''
                     | NC_DATASTORE_RUNNING \<Rightarrow> Some ''running''
                     | _ \<Rightarrow> None) of
        None \<Rightarrow> None
      | Some aux1 \<Rightarrow>
          (case changed_by by session of
             None \<Rightarrow> None
           | Some aux2 \<Rightarrow>
               Some (''<netconf-config-change><datastore>'' @ aux1 @ ''</datastore>''
                     @ aux2 @ ''</netconf-config-change>'')))"
| "event_content e (NCNTF_BASE_CPBLT_CHANGE old new by session) =
     (let aux2 = concat (map (new_capability old) new) @ concat (map (old_capability new) old)
      in case changed_by by session of
           None \<Rightarrow> None
         | Some aux1 \<Rightarrow>
             Some (''<netconf-capability-change>'' @ aux1 @ aux2
                   @ ''</netconf-capability-change>''))"
| "event_content e (NCNTF_BASE_SESSION_START session) =
     (case session of
        None \<Rightarrow> None
      | Some ses \<Rightarrow>
          Some (''<netconf-session-start>'' @ user_text ses @ ''</netconf-session-start>''))"
| "event_content e (NCNTF_BASE_SESSION_END session reason killed_by) =
     (case session of
        None \<Rightarrow> None
      | Some ses \<Rightarrow>
          let aux2 = (if reason = NC_SESSION_TERM_KILLED
                      then (case killed_by of
                              None \<Rightarrow> []
                            | Some k \<Rightarrow> ''<killed-by>'' @ k @ ''</killed-by>'')
                      else []);
              aux1 = ''<termination-reason>'' @ nc_session_term_string e reason
                     @ ''</termination-reason>''
          in Some (''<netconf-session-end>'' @ user_text ses @ aux2 @ aux1
                   @ ''</netconf-session-end>''))"
| "event_content e NCNTF_OTHER = None"

definition event_record :: "string \<Rightarrow> string \<Rightarrow> string" where
  "event_record event_time content =
     ''<?xml version=\"1.0\" encoding=\"UTF-8\"?>''
     @ ''<notification xmlns=\"'' @ NC_NS_NOTIFICATIONS @ ''\"><eventTime>'' @ event_time
     @ ''</eventTime>'' @ content @ ''</notification>''"

text \<open>
  The body of \<open>if (ncntf_stream_lock(s) == 0)\<close> with its \<open>else\<close>: the three writes at the
  end of the file, the truncation after a failed one, the unlock.
\<close>

definition log_event :: "env \<Rightarrow> stream \<Rightarrow> 32 word \<Rightarrow> 64 word \<Rightarrow> string \<Rightarrow> stream" where
  "log_event e s len etime64 record =
     (case ncntf_stream_lock e s of
        (l, s1) \<Rightarrow>
          if l \<noteq> 0 then s1
          else
            let offset = length (events_file s1);
                f0 = events_file s1;
                (r1, w1) = write_retry (write_results e (name s1));
                f1 = (if r1 then f0 @ le_bytes 4 (unat len) else f0);
                (r2, w2) = (if r1 then write_retry w1 else (False, w1));
                f2 = (if r2 then f1 @ le_bytes 8 (unat etime64) else f1);
                (r3, w3) = (if r2 then write_retry w2 else (False, w2));
                f3 = (if r3 then f2 @ take (unat len) (record @ [NUL]) else f2);
                s2 = (if r3 then s1\<lparr>events_file := f3, events_pos := length f3\<rparr>
                      else s1\<lparr>events_file := (if ftruncate_fails e (name s1) then f3
                                                 else take offset f3),
                              events_pos := offset\<rparr>)
            in snd (ncntf_stream_unlock e s2))"

text \<open>
  \<open>for (s = streams; s != NULL; s = s->next)\<close>, first loop. The counter is the number
  of streams still to visit, so that the stream visited keeps its place when a lookup
  puts a stream in front of the list.
\<close>

fun log_loop :: "env \<Rightarrow> string \<Rightarrow> 32 word \<Rightarrow> 64 word \<Rightarrow> string \<Rightarrow> nat \<Rightarrow> ncntf \<Rightarrow> ncntf" where
  "log_loop e ename len etime64 record 0 st = st"
| "log_loop e ename len etime64 record (Suc k) st =
     (let s = streams st ! (length (streams st) - Suc k) in
      if replay s = 0 then log_loop e ename len etime64 record k st
      else
        case ncntf_event_isallowed e st (Some (name s)) (Some ename) of
          (a, st1) \<Rightarrow>
            if a \<noteq> 0
            then
              let j = length (streams st1) - Suc k
              in log_loop e ename len etime64 record k
                   (st1\<lparr>streams := (streams st1)
                           [j := log_event e (streams st1 ! j) len etime64 record]\<rparr>)
            else log_loop e ename len etime64 record k st1)"

text \<open>
  The second loop, which announces the event. A failing D-Bus call leaves the loop
  (\<open>goto cleanup_dbus_mut\<close>).
\<close>

fun announce_loop :: "env \<Rightarrow> string \<Rightarrow> 64 word \<Rightarrow> string \<Rightarrow> nat \<Rightarrow> ncntf \<Rightarrow> ncntf" where
  "announce_loop e ename etime64 record 0 st = st"
| "announce_loop e ename etime64 record (Suc k) st =
     (let s = streams st ! (length (streams st) - Suc k) in
      case ncntf_event_isallowed e st (Some (name s)) (Some ename) of
        (a, st1) \<Rightarrow>
          if a = 0 then announce_loop e ename etime64 record k st1
          else
            let signal_object = NC_NTF_DBUS_PATH @ ''/'' @ name s in
            (case dbus_faults e (name s) of
               Some fault \<Rightarrow> st1
             | None \<Rightarrow>
                 announce_loop e ename etime64 record k
                   (st1\<lparr>dbus_sent := dbus_sent st1 @ [(signal_object, etime64, record)]\<rparr>)))"

text \<open>
  \<open>ncntf_event_new\<close> from the \<open>switch\<close> to \<open>len++\<close>: the name of the event element, the
  time \<open>etime64\<close>, the text of the record and \<open>len\<close>; \<open>None\<close> where the function returns
  \<open>EXIT_FAILURE\<close> before it writes anything. \<open>asprintf\<close> has no result above \<open>INT_MAX\<close>.
\<close>

definition event_prepare ::
  "env \<Rightarrow> time_t \<Rightarrow> NCNTF_EVENT \<Rightarrow> (string \<times> 64 word \<times> string \<times> 32 word) option" where
  "event_prepare e etime event =
     (case event_content e event of
        None \<Rightarrow> None
      | Some content \<Rightarrow>
          let etime1 = (if etime = - 1 then time_now e else etime) in
          if etime1 = - 1 then None
          else
            case nc_time2datetime e etime1 of
              None \<Rightarrow> None
            | Some event_time \<Rightarrow>
                let etime64 = etime1 in
                (case xmlReadMemory e content of
                   None \<Rightarrow> None
                 | Some edoc \<Rightarrow>
                     (case root_name edoc of
                        None \<Rightarrow> None
                      | Some ename \<Rightarrow>
                          let record = event_record event_time content in
                          if 2 ^ 31 \<le> length record then None
                          else Some (ename, etime64, record,
                                     of_nat (length record) + 1))))"

text \<open>\<open>ncntf_event_new\<close>: the value returned and the state it leaves.\<close>

definition ncntf_event_new :: "env \<Rightarrow> ncntf \<Rightarrow> time_t \<Rightarrow> NCNTF_EVENT \<Rightarrow> int \<times> ncntf" where
  "ncntf_event_new e st etime event =
     (if \<not> ncntf_config st then (EXIT_FAILURE, st)
      else
        case event_prepare e etime event of
          None \<Rightarrow> (EXIT_FAILURE, st)
        | Some (ename, etime64, record, len) \<Rightarrow>
            let st1 = log_loop e ename len etime64 record (length (streams st)) st;
                st2 = (if dbus st1
                       then announce_loop e ename etime64 record (length (streams st1)) st1
                       else st1)
            in (EXIT_SUCCESS, st2))"

section \<open>Reading a stream\<close>

definition dbus_filter :: "string option \<Rightarrow> string" where
  "dbus_filter stream =
     ''type='' @ [CHR 0x27] @ ''signal'' @ [CHR 0x27]
     @ '',interface='' @ [CHR 0x27] @ NC_NTF_DBUS_INTERFACE @ [CHR 0x27]
     @ '',path='' @ [CHR 0x27] @ NC_NTF_DBUS_PATH @ ''/'' @ path_text stream @ [CHR 0x27]
     @ '',member='' @ [CHR 0x27] @ ''Event'' @ [CHR 0x27]"

text \<open>
  \<open>ncntf_stream_iter_start\<close>: the offset goes to the first record, the match rule for
  the stream is added, the thread gets a fresh \<open>replay_done\<close> of 0.
\<close>

definition ncntf_stream_iter_start :: "env \<Rightarrow> ncntf \<Rightarrow> string option \<Rightarrow> ncntf" where
  "ncntf_stream_iter_start e st stream =
     (if \<not> ncntf_config st then st
      else
        case ncntf_stream_get e st stream of
          (None, st1) \<Rightarrow> st1
        | (Some i, st1) \<Rightarrow>
            st1\<lparr>streams := (streams st1)
                   [i := (streams st1 ! i)\<lparr>events_pos := data (streams st1 ! i)\<rparr>],
                dbus_matches := dbus_matches st1 @ [dbus_filter stream],
                ncntf_replay_done := Some 0\<rparr>)"

text \<open>
  \<open>ncntf_stream_iter_finnish\<close>: the match rule is removed and \<open>replay_done\<close> reset; the
  value of the key is dereferenced without a check, so without one there is no result.
\<close>

definition ncntf_stream_iter_finnish :: "ncntf \<Rightarrow> string option \<Rightarrow> ncntf option" where
  "ncntf_stream_iter_finnish st stream =
     (case ncntf_replay_done st of
        None \<Rightarrow> None
      | Some rd \<Rightarrow>
          Some (st\<lparr>dbus_matches := remove1 (dbus_filter stream) (dbus_matches st),
                   ncntf_replay_done := Some 0\<rparr>))"

definition replayComplete :: "env \<Rightarrow> time_t \<Rightarrow> string" where
  "replayComplete e tnow =
     ''<notification xmlns=\"urn:ietf:params:xml:ns:netconf:notification:1.0\">''
     @ ''<eventTime>'' @ path_text (nc_time2datetime e tnow)
     @ ''</eventTime><replayComplete/></notification>''"

definition is_event_signal :: "dbus_message \<Rightarrow> bool" where
  "is_event_signal m \<longleftrightarrow>
     msg_is_signal m \<and> msg_interface m = NC_NTF_DBUS_INTERFACE \<and> msg_member m = ''Event''"

text \<open>
  \<open>while (ncntf_config != NULL)\<close>, the D-Bus part of \<open>ncntf_stream_iter_next\<close>, on the
  messages waiting on the connection: the result of the function and the messages left.
\<close>

fun try_dbus ::
  "bool \<Rightarrow> time_t \<Rightarrow> time_t \<Rightarrow> dbus_message list
   \<Rightarrow> (string \<times> time_t) option \<times> dbus_message list" where
  "try_dbus c start stop [] = (None, [])"
| "try_dbus c start stop (m # q) =
     (if \<not> c then (None, m # q)
      else if is_event_signal m
      then (case msg_args m of
              [] \<Rightarrow> (None, q)
            | a # as \<Rightarrow>
                (case a of
                   DBUS_TYPE_UINT64 t \<Rightarrow>
                     if start \<noteq> - 1 \<and> t <s start then try_dbus c start stop q
                     else if stop \<noteq> - 1 \<and> stop <s t then try_dbus c start stop q
                     else (case as of
                             DBUS_TYPE_STRING text # _ \<Rightarrow> (Some (text, t), q)
                           | _ \<Rightarrow> try_dbus c start stop q)
                 | _ \<Rightarrow> try_dbus c start stop q))
      else (None, q))"

text \<open>
  \<open>while (1)\<close> of \<open>ncntf_stream_iter_next\<close> for the stream at position \<open>i\<close>. The inner
  \<open>Some\<close> of a result is the text returned with the time stored through \<open>event_time\<close>,
  the inner \<open>None\<close> the result \<open>NULL\<close>. In the test for data left the current offset is
  read before the offset of the end, as the operands are written; when the test fails
  there, the offset stays at the end. The loop need not end (a record whose stored
  length is negative can send the offset back); then the function has no result.
\<close>

partial_function (option) iter_loop ::
  "env \<Rightarrow> time_t \<Rightarrow> time_t \<Rightarrow> nat \<Rightarrow> ncntf \<Rightarrow> ((string \<times> time_t) option \<times> ncntf) option"
where
  "iter_loop e start stop i st =
     (let s = streams st ! i in
      if ncntf_replay_done st = Some 0 \<and> start \<noteq> - 1 \<and> replay s = 1
         \<and> events_pos s < length (events_file s)
      then
        (case ncntf_stream_lock e s of
           (l, s1) \<Rightarrow>
             if l \<noteq> 0 then Some (None, st\<lparr>streams := (streams st)[i := s1]\<rparr>)
             else
               let f = events_file s1;
                   g1 = read_at f (events_pos s1) 4;
                   p1 = events_pos s1 + length g1;
                   g2 = read_at f p1 8;
                   p2 = p1 + length g2;
                   len = (of_nat (le_nat (fill g1 (take 4 (uninit e ''len'')))) :: 32 word);
                   t = (of_nat (le_nat (fill g2 (take 8 (uninit e ''t'')))) :: 64 word)
               in
               if g1 = []
               then Some (None, st\<lparr>streams := (streams st)[i := s1]\<rparr>)
               else if g2 = []
               then Some (None, st\<lparr>streams := (streams st)[i := s1\<lparr>events_pos := p1\<rparr>]\<rparr>)
               else if (start \<noteq> - 1 \<and> t <s start) \<or> (stop \<noteq> - 1 \<and> stop <s t)
               then
                 let p3 = (if 0 \<le> int p2 + sint len then nat (int p2 + sint len) else p2);
                     s2 = snd (ncntf_stream_unlock e (s1\<lparr>events_pos := p3\<rparr>))
                 in iter_loop e start stop i (st\<lparr>streams := (streams st)[i := s2]\<rparr>)
               else
                 let g3 = (if sint len \<le> 0 then [] else read_at f p2 (unat len)) in
                 if g3 = []
                 then Some (None, st\<lparr>streams := (streams st)[i := s1\<lparr>events_pos := p2\<rparr>]\<rparr>)
                 else
                   let text = c_str (fill g3 (take (unat len) (uninit e ''text'')));
                       s2 = snd (ncntf_stream_unlock e (s1\<lparr>events_pos := p2 + length g3\<rparr>))
                   in Some (Some (text, t), st\<lparr>streams := (streams st)[i := s2]\<rparr>))
      else
        let s0 = (if ncntf_replay_done st = Some 0 \<and> start \<noteq> - 1 \<and> replay s = 1
                  then s\<lparr>events_pos := length (events_file s)\<rparr> else s);
            st0 = st\<lparr>streams := (streams st)[i := s0]\<rparr>
        in
        if ncntf_replay_done st = Some 0
        then Some (Some (replayComplete e (time_now e), time_now e),
                   st0\<lparr>ncntf_replay_done := Some 1\<rparr>)
        else
          (case try_dbus (dbus_connected st0) start stop (dbus_incoming st0) of
             (res, q) \<Rightarrow> Some (res, st0\<lparr>dbus_incoming := q\<rparr>)))"

text \<open>
  \<open>ncntf_stream_iter_next\<close>. The value of the thread-specific key is dereferenced
  without a check: where \<open>ncntf_stream_iter_start\<close> has not set it the function has no
  result.
\<close>

definition ncntf_stream_iter_next ::
  "env \<Rightarrow> ncntf \<Rightarrow> string option \<Rightarrow> time_t \<Rightarrow> time_t
   \<Rightarrow> ((string \<times> time_t) option \<times> ncntf) option" where
  "ncntf_stream_iter_next e st stream start stop =
     (if \<not> ncntf_config st then Some (None, st)
      else if start \<noteq> - 1 \<and> stop \<noteq> - 1 \<and> stop <s start then Some (None, st)
      else
        case ncntf_stream_get e st stream of
          (None, st1) \<Rightarrow> Some (None, st1)
        | (Some i, st1) \<Rightarrow>
            (case ncntf_replay_done st1 of
               None \<Rightarrow> None
             | Some rd \<Rightarrow>
                 iter_loop e start stop i
                   (st1\<lparr>ncntf_replay_done := Some (if start = - 1 then 1 else rd)\<rparr>)))"

section \<open>Checking a subscription\<close>

text \<open>
  Of the operations of an RPC only \<open>create-subscription\<close> is told apart from the rest.
\<close>

datatype NC_OP = NC_OP_CREATESUBSCRIPTION | NC_OP_UNKNOWN

text \<open>
  A request as the XPath queries of \<open>ncntf_subscription_get_params\<close> see it: whether
  the XPath context can be set up, the contents of the nodes found for \<open>stream\<close>,
  \<open>startTime\<close> and \<open>stopTime\<close>, the number of \<open>filter\<close> nodes and the result of
  \<open>nc_rpc_get_filter\<close>.
\<close>

record nc_rpc =
  rpc_op :: NC_OP
  xpath_context :: bool
  stream_nodes :: "string list"
  startTime_nodes :: "string list"
  stopTime_nodes :: "string list"
  filter_nodes :: nat
  rpc_filter :: "string option"

definition NCNTF_STREAM_DEFAULT :: string where
  \<comment> \<open>Modelled from the spec: the macro is defined in a header that is not part of the
      sources; the default stream is the one named NETCONF.\<close>
  "NCNTF_STREAM_DEFAULT = ''NETCONF''"

definition ncntf_subscription_get_params ::
  "env \<Rightarrow> nc_rpc option \<Rightarrow> int \<times> string \<times> time_t \<times> time_t \<times> string option" where
  "ncntf_subscription_get_params e subscribe_rpc =
     (case subscribe_rpc of
        None \<Rightarrow> (- 1, [], 0, 0, None)
      | Some rpc \<Rightarrow>
          if rpc_op rpc \<noteq> NC_OP_CREATESUBSCRIPTION then (- 1, [], 0, 0, None)
          else if \<not> xpath_context rpc then (- 1, [], 0, 0, None)
          else
            let stream = (case stream_nodes rpc of [n] \<Rightarrow> n | _ \<Rightarrow> NCNTF_STREAM_DEFAULT);
                start = (case startTime_nodes rpc of [n] \<Rightarrow> nc_datetime2time e n | _ \<Rightarrow> - 1);
                stop = (case stopTime_nodes rpc of [n] \<Rightarrow> nc_datetime2time e n | _ \<Rightarrow> - 1)
            in if filter_nodes rpc = 1 \<and> rpc_filter rpc = None
               then (- 2, stream, start, stop, None)
               else (0, stream, start, stop,
                     if filter_nodes rpc = 1 then rpc_filter rpc else None))"

datatype NC_ERR =
  NC_ERR_INVALID_VALUE | NC_ERR_OP_FAILED | NC_ERR_BAD_ELEM | NC_ERR_MISSING_ELEM

datatype NC_ERR_PARAM = NC_ERR_PARAM_TYPE | NC_ERR_PARAM_INFO_BADELEM | NC_ERR_PARAM_MSG

text \<open>An error is its tag and the parameters set on it, in the order they were set.\<close>

datatype nc_err = Nc_err NC_ERR "(NC_ERR_PARAM \<times> string) list"

definition nc_err_new :: "NC_ERR \<Rightarrow> nc_err" where
  "nc_err_new tag = Nc_err tag []"

fun nc_err_set :: "nc_err \<Rightarrow> NC_ERR_PARAM \<Rightarrow> string \<Rightarrow> nc_err" where
  "nc_err_set (Nc_err tag ps) p v = Nc_err tag (ps @ [(p, v)])"

datatype nc_reply = nc_reply_ok | nc_reply_error nc_err

definition ncntf_subscription_check :: "env \<Rightarrow> ncntf \<Rightarrow> nc_rpc option \<Rightarrow> nc_reply \<times> ncntf" where
  "ncntf_subscription_check e st subscribe_rpc =
     (if subscribe_rpc = None \<or> rpc_op (the subscribe_rpc) \<noteq> NC_OP_CREATESUBSCRIPTION
      then (nc_reply_error (nc_err_new NC_ERR_INVALID_VALUE), st)
      else
        case ncntf_subscription_get_params e subscribe_rpc of
          (r, stream, start, stop, flt) \<Rightarrow>
            if r = - 2
            then (nc_reply_error
                    (nc_err_set (nc_err_set (nc_err_new NC_ERR_BAD_ELEM)
                       NC_ERR_PARAM_TYPE ''protocol'') NC_ERR_PARAM_INFO_BADELEM ''filter''), st)
            else if r \<noteq> 0 then (nc_reply_error (nc_err_new NC_ERR_OP_FAILED), st)
            else
              case ncntf_stream_get e st (Some stream) of
                (None, st1) \<Rightarrow>
                  (nc_reply_error
                     (nc_err_set (nc_err_new NC_ERR_INVALID_VALUE) NC_ERR_PARAM_MSG
                        (''Requested stream '' @ [CHR 0x27] @ stream @ [CHR 0x27]
                         @ '' does not exist.'')), st1)
              | (Some i, st1) \<Rightarrow>
                  if stop \<noteq> - 1 \<and> start = - 1
                  then (nc_reply_error
                          (nc_err_set (nc_err_set (nc_err_new NC_ERR_MISSING_ELEM)
                             NC_ERR_PARAM_TYPE ''protocol'')
                             NC_ERR_PARAM_INFO_BADELEM ''startTime''), st1)
                  else if stop \<noteq> - 1 \<and> start \<noteq> - 1 \<and> stop <s start
                  then (nc_reply_error
                          (nc_err_set (nc_err_set (nc_err_new NC_ERR_BAD_ELEM)
                             NC_ERR_PARAM_TYPE ''protocol'')
                             NC_ERR_PARAM_INFO_BADELEM ''stopTime''), st1)
                  else if start \<noteq> - 1 \<and> time_now e <s start
                  then (nc_reply_error
                          (nc_err_set (nc_err_set (nc_err_new NC_ERR_BAD_ELEM)
                             NC_ERR_PARAM_TYPE ''protocol'')
                             NC_ERR_PARAM_INFO_BADELEM ''startTime''), st1)
                  else (nc_reply_ok, st1))"

section \<open>Notions used in the statements\<close>

text \<open>The allow-list of a stream admits an event name: some line of its rules is the name.\<close>

definition allowed :: "stream \<Rightarrow> string \<Rightarrow> bool" where
  "allowed s ename \<longleftrightarrow>
     ename \<in> set (strtok_tokens (case rules s of None \<Rightarrow> [] | Some m \<Rightarrow> c_str m) [])"

text \<open>A record of a stream file: length, timestamp, text with its final zero byte.\<close>

definition record_bytes :: "32 word \<Rightarrow> 64 word \<Rightarrow> string \<Rightarrow> string" where
  "record_bytes len t record =
     le_bytes 4 (unat len) @ le_bytes 8 (unat t) @ take (unat len) (record @ [NUL])"

text \<open>The three successive writes of a record all end without error.\<close>

definition writes_accepted :: "write_result list \<Rightarrow> bool" where
  "writes_accepted ws \<longleftrightarrow>
     fst (write_retry ws) \<and> fst (write_retry (snd (write_retry ws)))
     \<and> fst (write_retry (snd (write_retry (snd (write_retry ws)))))"

text \<open>
  What the first loop of \<open>ncntf_event_new\<close> does to one stream, and the signals the
  second loop sends for a list of streams.
\<close>

definition logged :: "env \<Rightarrow> string \<Rightarrow> 32 word \<Rightarrow> 64 word \<Rightarrow> string \<Rightarrow> stream \<Rightarrow> stream" where
  "logged e en len t r s = (if replay s \<noteq> 0 \<and> allowed s en then log_event e s len t r else s)"

fun announced ::
  "env \<Rightarrow> string \<Rightarrow> 64 word \<Rightarrow> string \<Rightarrow> stream list \<Rightarrow> (string \<times> 64 word \<times> string) list" where
  "announced e en t r [] = []"
| "announced e en t r (s # ss) =
     (if \<not> allowed s en then announced e en t r ss
      else if dbus_faults e (name s) \<noteq> None then []
      else (NC_NTF_DBUS_PATH @ ''/'' @ name s, t, r) # announced e en t r ss)"

text \<open>
  The bytes of the record that a publish stores for the text \<open>r\<close> at time \<open>t\<close>.
\<close>

definition stored :: "time_t \<times> string \<Rightarrow> string" where
  "stored rc = record_bytes (of_nat (length (snd rc)) + 1) (fst rc) (snd rc)"

text \<open>
  A time lies in the window: not before \<open>start\<close> and, when \<open>stop\<close> is set, not after
  \<open>stop\<close>. Times are compared as \<open>time_t\<close>, that is signed.
\<close>

definition in_window :: "time_t \<Rightarrow> time_t \<Rightarrow> time_t \<Rightarrow> bool" where
  "in_window start stop t \<longleftrightarrow> start \<le>s t \<and> (stop = - 1 \<or> t \<le>s stop)"

text \<open>
  The results of \<open>n\<close> successive calls of \<open>ncntf_stream_iter_next\<close>, first call first, and
  the state after the last.
\<close>

fun iter_calls ::
  "nat \<Rightarrow> env \<Rightarrow> ncntf \<Rightarrow> string option \<Rightarrow> time_t \<Rightarrow> time_t
   \<Rightarrow> ((string \<times> time_t) option list \<times> ncntf) option" where
  "iter_calls 0 e st stream start stop = Some ([], st)"
| "iter_calls (Suc n) e st stream start stop =
     (case ncntf_stream_iter_next e st stream start stop of
        None \<Rightarrow> None
      | Some (res, st1) \<Rightarrow>
          (case iter_calls n e st1 stream start stop of
             None \<Rightarrow> None
           | Some (rs, st2) \<Rightarrow> Some (res # rs, st2)))"

definition missing_element :: "string \<Rightarrow> nc_reply" where
  "missing_element el =
     nc_reply_error (Nc_err NC_ERR_MISSING_ELEM
       [(NC_ERR_PARAM_TYPE, ''protocol''), (NC_ERR_PARAM_INFO_BADELEM, el)])"

definition bad_element :: "string \<Rightarrow> nc_reply" where
  "bad_element el =
     nc_reply_error (Nc_err NC_ERR_BAD_ELEM
       [(NC_ERR_PARAM_TYPE, ''protocol''), (NC_ERR_PARAM_INFO_BADELEM, el)])"

section \<open>Example data\<close>

text \<open>An environment in which no call fails and the clock shows 2000.\<close>

definition ex_xml :: "string \<Rightarrow> xmlDoc option" where
  "ex_xml c =
     (case c of
        [] \<Rightarrow> None
      | x # r \<Rightarrow>
          if x = CHR ''<''
          then Some (XmlDoc (Some (takeWhile (\<lambda>y. y \<noteq> CHR ''/'' \<and> y \<noteq> CHR ''>'') r)))
          else None)"

definition ex_datetime2time :: "string \<Rightarrow> time_t" where
  "ex_datetime2time d =
     (if d = ''1970-01-01T00:08:20Z'' then 500
      else if d = ''1970-01-01T00:16:40Z'' then 1000
      else if d = ''1970-01-01T01:23:20Z'' then 5000
      else - 1)"

definition ex_time2datetime :: "time_t \<Rightarrow> string option" where
  "ex_time2datetime t =
     (if t = 1000 then Some ''1970-01-01T00:16:40Z''
      else if t = 2000 then Some ''1970-01-01T00:33:20Z''
      else if t = - 2 then Some ''1969-12-31T23:59:58Z''
      else None)"

definition ex_env :: env where
  "ex_env = \<lparr>time_now = 2000, disk = (\<lambda>p. None), open_fails = (\<lambda>p. False),
             mmap_fails = (\<lambda>p. False), lockf_fails = (\<lambda>n. False),
             ulockf_fails = (\<lambda>n. False), ftruncate_fails = (\<lambda>n. False),
             write_results = (\<lambda>n. []), uninit = (\<lambda>v. []),
             header_addr = 0x55D0C8A4B2A0,
             nc_time2datetime = ex_time2datetime,
             nc_datetime2time = ex_datetime2time, xmlReadMemory = ex_xml,
             nc_session_term_string = (\<lambda>r. ''other''), dbus_faults = (\<lambda>n. None)\<rparr>"

text \<open>
  A stream with the given name, replay flag, rules and records, its header complete
  and its offset at the first record.
\<close>

definition ex_stream :: "string \<Rightarrow> 8 word \<Rightarrow> string \<Rightarrow> string \<Rightarrow> stream" where
  "ex_stream n r lines records =
     (let s = \<lparr>fd_events = Some (''/var/run/netconf_events/'' @ n @ ''.events''),
                fd_rules = Some (''/var/run/netconf_events/'' @ n @ ''.rules''),
                name = n, desc = Some ''example'', replay = r, created = 0, locked = 0,
                rules = Some (lines @ replicate (NCNTF_RULES_SIZE - length lines) NUL),
                data = 0, events_file = [], events_pos = 0\<rparr>
      in s\<lparr>data := length (header_buffer s), events_file := header_buffer s @ records,
           events_pos := length (header_buffer s)\<rparr>)"

definition ex_records :: string where
  "ex_records = concat (map stored [(100, ''<a/>''), (200, ''<b/>''), (300, ''<c/>'')])"

text \<open>
  A registry of three streams: \<open>A\<close> keeps a replay log and admits \<open>x\<close>, \<open>B\<close> admits \<open>x\<close>
  and keeps no log, \<open>C\<close> keeps a log and admits \<open>y\<close>. One live message is waiting.
\<close>

definition ex_state :: ncntf where
  "ex_state = \<lparr>ncntf_config = True, streams_path = Some ''/var/run/netconf_events'',
               streams = [ex_stream ''A'' 1 (''x'' @ [NL]) ex_records,
                          ex_stream ''B'' 0 (''x'' @ [NL]) [],
                          ex_stream ''C'' 1 (''y'' @ [NL]) []],
               dbus = True, dbus_connected = True, dbus_matches = [],
               dbus_incoming = [\<lparr>msg_is_signal = True,
                                  msg_interface = NC_NTF_DBUS_INTERFACE,
                                  msg_member = ''Event'',
                                  msg_args = [DBUS_TYPE_UINT64 1500,
                                              DBUS_TYPE_STRING ''<live/>'']\<rparr>],
               dbus_sent = [], ncntf_replay_done = Some 0\<rparr>"

definition ex_env_faulty ::
  "(string \<Rightarrow> write_result list) \<Rightarrow> (string \<Rightarrow> dbus_fault option) \<Rightarrow> env" where
  "ex_env_faulty w d = ex_env\<lparr>write_results := w, dbus_faults := d\<rparr>"

text \<open>Every D-Bus send fails; the second write on any stream file fails.\<close>

definition ex_env_bus_down :: env where
  "ex_env_bus_down = ex_env_faulty (\<lambda>n. []) (\<lambda>n. Some SendFailed)"

definition ex_env_write_fails :: env where
  "ex_env_write_fails = ex_env_faulty (\<lambda>n. [Written, WriteError EIO]) (\<lambda>n. None)"

text \<open>A directory that holds one file.\<close>

definition single_file :: "string \<Rightarrow> string \<Rightarrow> string \<Rightarrow> string option" where
  "single_file path content = (\<lambda>p. if p = path then Some content else None)"

definition ex_event :: NCNTF_EVENT where
  "ex_event = NCNTF_GENERIC (Some ''<x/>'')"

definition ex_record :: "string \<Rightarrow> string" where
  "ex_record event_time = event_record event_time ''<x/>''"

text \<open>
  A registry whose only stream has a rule store with one entry of 1048570 characters:
  5 of its 1048576 bytes are free.
\<close>

definition ex_full_rules :: string where
  "ex_full_rules = replicate 1048570 (CHR ''a'') @ [NL]"

definition ex_full_state :: ncntf where
  "ex_full_state = ex_state\<lparr>streams := [ex_stream ''A'' 1 ex_full_rules []]\<rparr>"

text \<open>An empty registry, and an environment with some bytes on the stack.\<close>

definition ex_empty_state :: ncntf where
  "ex_empty_state = ex_state\<lparr>streams := []\<rparr>"

definition ex_stack_env :: env where
  "ex_stack_env =
     ex_env\<lparr>uninit := (\<lambda>v. if v = ''stack'' then replicate 64 (CHR 0xAA) else [])\<rparr>"

definition ex_rpc :: "string list \<Rightarrow> string list \<Rightarrow> nc_rpc" where
  "ex_rpc start stop =
     \<lparr>rpc_op = NC_OP_CREATESUBSCRIPTION, xpath_context = True, stream_nodes = [''A''],
      startTime_nodes = start, stopTime_nodes = stop, filter_nodes = 0,
      rpc_filter = None\<rparr>"

section \<open>Facts about the example data\<close>

lemma name_ex_stream [simp]: "name (ex_stream n r l f) = n"
  by (simp add: ex_stream_def Let_def)

lemma ex_get_A: "ncntf_stream_get ex_env ex_state (Some ''A'') = (Some 0, ex_state)"
  by (simp add: ncntf_stream_get_def ex_state_def)

lemma c_str_padded: "NUL \<notin> set xs \<Longrightarrow> c_str (xs @ replicate n NUL) = xs"
  by (induction xs) (auto simp: c_str_def takeWhile_replicate)

lemma allowed_ex_stream:
  "NUL \<notin> set l \<Longrightarrow> allowed (ex_stream n r l f) x \<longleftrightarrow> x \<in> set (strtok_tokens l [])"
  by (simp add: allowed_def ex_stream_def Let_def c_str_padded)

lemma ex_distinct: "distinct (map name (streams ex_state))"
  by (simp add: ex_state_def)

lemma length_ex_record: "length (ex_record ''1970-01-01T00:16:40Z'') = 170"
  by (simp add: ex_record_def event_record_def NC_NS_NOTIFICATIONS_def)

lemma ex_prepare:
  "event_prepare ex_env 1000 ex_event =
     Some (''x'', 1000, ex_record ''1970-01-01T00:16:40Z'', 171)"
  using length_ex_record
  by (simp add: event_prepare_def ex_event_def ex_env_def ex_time2datetime_def ex_xml_def
      Let_def ex_record_def)

lemma ex_allowed_A: "allowed (streams ex_state ! 0) ''x''"
  by (simp add: ex_state_def allowed_ex_stream)

lemma ex_allowed_B: "allowed (streams ex_state ! 1) ''x''"
  by (simp add: ex_state_def allowed_ex_stream)

lemma ex_not_allowed_C: "\<not> allowed (streams ex_state ! 2) ''x''"
  by (simp add: ex_state_def allowed_ex_stream)

lemma ex_config: "ncntf_config ex_state"
  by (simp add: ex_state_def)

lemma length_ex_record': "length (ex_record ''1970-01-01T00:33:20Z'') = 170"
  "length (ex_record ''1969-12-31T23:59:58Z'') = 170"
  by (simp_all add: ex_record_def event_record_def NC_NS_NOTIFICATIONS_def)

lemma ex_prepare_faulty:
  "event_prepare (ex_env_faulty w d) 1000 ex_event =
     Some (''x'', 1000, ex_record ''1970-01-01T00:16:40Z'', 171)"
  using length_ex_record
  by (simp add: event_prepare_def ex_event_def ex_env_def ex_time2datetime_def ex_xml_def
      Let_def ex_record_def ex_env_faulty_def)

lemma ex_prepare_bus_down:
  "event_prepare ex_env_bus_down 1000 ex_event =
     Some (''x'', 1000, ex_record ''1970-01-01T00:16:40Z'', 171)"
  by (simp add: ex_env_bus_down_def ex_prepare_faulty)

lemma ex_prepare_write_fails:
  "event_prepare ex_env_write_fails 1000 ex_event =
     Some (''x'', 1000, ex_record ''1970-01-01T00:16:40Z'', 171)"
  by (simp add: ex_env_write_fails_def ex_prepare_faulty)

lemma ex_prepare_now:
  "event_prepare ex_env (- 1) ex_event =
     Some (''x'', 2000, ex_record ''1970-01-01T00:33:20Z'', 171)"
  using length_ex_record'
  by (simp add: event_prepare_def ex_event_def ex_env_def ex_time2datetime_def ex_xml_def
      Let_def ex_record_def)

lemma ex_prepare_negative:
  "event_prepare ex_env (- 2) ex_event =
     Some (''x'', - 2, ex_record ''1969-12-31T23:59:58Z'', 171)"
  using length_ex_record'
  by (simp add: event_prepare_def ex_event_def ex_env_def ex_time2datetime_def ex_xml_def
      Let_def ex_record_def)

section \<open>Publishing: the two passes over the streams\<close>

lemma find_stream_nth:
  "distinct (map name ss) \<Longrightarrow> i < length ss \<Longrightarrow> find_stream (name (ss ! i)) ss = Some i"
proof (induction ss arbitrary: i)
  case Nil
  then show ?case by simp
next
  case (Cons s ss)
  show ?case
  proof (cases i)
    case 0
    then show ?thesis by simp
  next
    case (Suc j)
    with Cons.prems have j: "j < length ss" by simp
    then have "ss ! j \<in> set ss" by simp
    with Cons.prems have "name (ss ! j) \<noteq> name s" by (metis distinct.simps(2) image_eqI list.simps(9) set_map)
    note j this
    with Cons Suc show ?thesis by simp
  qed
qed

lemma isallowed_registered:
  assumes "distinct (map name (streams st))" and "i < length (streams st)"
  shows "ncntf_event_isallowed e st (Some (name (streams st ! i))) (Some en) =
           (if allowed (streams st ! i) en then 1 else 0, st)"
  using find_stream_nth [OF assms]
  by (simp add: ncntf_event_isallowed_def ncntf_stream_get_def allowed_def)

lemma log_event_name [simp]: "name (log_event e s len t r) = name s"
  by (simp add: log_event_def ncntf_stream_lock_def ncntf_stream_unlock_def Let_def
      split: prod.splits)

lemma log_event_rules [simp]: "rules (log_event e s len t r) = rules s"
  by (simp add: log_event_def ncntf_stream_lock_def ncntf_stream_unlock_def Let_def
      split: prod.splits)

lemma log_event_replay [simp]: "replay (log_event e s len t r) = replay s"
  by (simp add: log_event_def ncntf_stream_lock_def ncntf_stream_unlock_def Let_def
      split: prod.splits)

lemma log_event_lock_fails:
  "lockf_fails e (name s) \<Longrightarrow> log_event e s len t r = s"
  by (simp add: log_event_def ncntf_stream_lock_def)

lemma log_event_accepted:
  assumes "\<not> lockf_fails e (name s)" and "writes_accepted (write_results e (name s))"
  shows "events_file (log_event e s len t r) = events_file s @ record_bytes len t r
   \<and> events_pos (log_event e s len t r) = length (events_file s @ record_bytes len t r)"
proof -
  obtain r1 w1 where a: "write_retry (write_results e (name s)) = (r1, w1)"
    by (cases "write_retry (write_results e (name s))")
  obtain r2 w2 where b: "write_retry w1 = (r2, w2)" by (cases "write_retry w1")
  obtain r3 w3 where c: "write_retry w2 = (r3, w3)" by (cases "write_retry w2")
  from assms a b c have "r1 \<and> r2 \<and> r3" by (simp add: writes_accepted_def)
  with assms(1) a b c show ?thesis
    by (simp add: log_event_def ncntf_stream_lock_def ncntf_stream_unlock_def Let_def
        record_bytes_def)
qed

lemma log_event_reverted:
  assumes "\<not> lockf_fails e (name s)" and "\<not> writes_accepted (write_results e (name s))"
    and "\<not> ftruncate_fails e (name s)"
  shows "events_file (log_event e s len t r) = events_file s
   \<and> events_pos (log_event e s len t r) = length (events_file s)"
proof -
  obtain r1 w1 where a: "write_retry (write_results e (name s)) = (r1, w1)"
    by (cases "write_retry (write_results e (name s))")
  obtain r2 w2 where b: "write_retry w1 = (r2, w2)" by (cases "write_retry w1")
  obtain r3 w3 where c: "write_retry w2 = (r3, w3)" by (cases "write_retry w2")
  from assms a b c have "\<not> (r1 \<and> r2 \<and> r3)" by (simp add: writes_accepted_def)
  with assms(1,3) a b c show ?thesis
    by (auto simp add: log_event_def ncntf_stream_lock_def ncntf_stream_unlock_def Let_def)
qed

lemma logged_name [simp]: "name (logged e en len t r s) = name s"
  by (simp add: logged_def)

lemma logged_allowed [simp]: "allowed (logged e en len t r s) x = allowed s x"
  by (simp add: logged_def allowed_def)

lemma announced_logged [simp]:
  "announced e en t r (map (logged e' en' len t' r') ss) = announced e en t r ss"
  by (induction ss) simp_all

lemma log_loop_eq:
  assumes "distinct (map name (streams st))" and "k \<le> length (streams st)"
  shows "log_loop e en len t r k st =
           st\<lparr>streams := take (length (streams st) - k) (streams st)
                @ map (logged e en len t r) (drop (length (streams st) - k) (streams st))\<rparr>"
  using assms
proof (induction k arbitrary: st)
  case 0
  then show ?case by simp
next
  case (Suc k)
  define ss where "ss = streams st"
  define i where "i = length ss - Suc k"
  from Suc.prems have i: "i < length ss" and ik: "length ss - k = Suc i"
    by (auto simp: ss_def i_def)
  have dr: "drop i ss = ss ! i # drop (Suc i) ss"
    using i by (simp add: Cons_nth_drop_Suc)
  have tk: "take (Suc i) ss = take i ss @ [ss ! i]"
    using i by (simp add: take_Suc_conv_app_nth)
  have al: "ncntf_event_isallowed e st (Some (name (ss ! i))) (Some en) =
              (if allowed (ss ! i) en then 1 else 0, st)"
    using isallowed_registered [of st i e en] Suc.prems i by (simp add: ss_def)
  show ?case
  proof (cases "replay (ss ! i) \<noteq> 0 \<and> allowed (ss ! i) en")
    case False
    then have "log_loop e en len t r (Suc k) st = log_loop e en len t r k st"
      using al by (auto simp: Let_def ss_def [symmetric] i_def [symmetric])
    also have "\<dots> = st\<lparr>streams := take (Suc i) ss @ map (logged e en len t r) (drop (Suc i) ss)\<rparr>"
      using Suc.IH [of st] Suc.prems ik by (simp add: ss_def [symmetric])
    also have "take (Suc i) ss @ map (logged e en len t r) (drop (Suc i) ss)
                 = take i ss @ map (logged e en len t r) (drop i ss)"
      using False by (auto simp add: dr tk logged_def)
    finally show ?thesis by (simp add: ss_def [symmetric] i_def [symmetric])
  next
    case True
    define u where "u = log_event e (ss ! i) len t r"
    define st' where "st' = st\<lparr>streams := ss[i := u]\<rparr>"
    have nm: "map name (ss[i := u]) = map name ss"
      using i by (simp add: map_update u_def list_update_same_conv)
    have "log_loop e en len t r (Suc k) st = log_loop e en len t r k st'"
      using True al
      by (simp add: Let_def ss_def [symmetric] i_def [symmetric] st'_def u_def)
    also have "\<dots> = st'\<lparr>streams := take (Suc i) (ss[i := u])
                         @ map (logged e en len t r) (drop (Suc i) (ss[i := u]))\<rparr>"
      using Suc.IH [of st'] Suc.prems ik nm by (simp add: st'_def ss_def [symmetric])
    also have "take (Suc i) (ss[i := u]) @ map (logged e en len t r) (drop (Suc i) (ss[i := u]))
                 = take i ss @ map (logged e en len t r) (drop i ss)"
      using True i by (simp add: dr take_Suc_conv_app_nth logged_def u_def)
    finally show ?thesis by (simp add: ss_def [symmetric] i_def [symmetric] st'_def)
  qed
qed

lemma announce_loop_eq:
  assumes "distinct (map name (streams st))" and "k \<le> length (streams st)"
  shows "announce_loop e en t r k st =
           st\<lparr>dbus_sent := dbus_sent st
                @ announced e en t r (drop (length (streams st) - k) (streams st))\<rparr>"
  using assms
proof (induction k arbitrary: st)
  case 0
  then show ?case by simp
next
  case (Suc k)
  define ss where "ss = streams st"
  define i where "i = length ss - Suc k"
  from Suc.prems have i: "i < length ss" and ik: "length ss - k = Suc i"
    by (auto simp: ss_def i_def)
  have dr: "drop i ss = ss ! i # drop (Suc i) ss"
    using i by (simp add: Cons_nth_drop_Suc)
  have al: "ncntf_event_isallowed e st (Some (name (ss ! i))) (Some en) =
              (if allowed (ss ! i) en then 1 else 0, st)"
    using isallowed_registered [of st i e en] Suc.prems i by (simp add: ss_def)
  show ?case
    using al Suc.prems ik
      Suc.IH [of st]
      Suc.IH [of "st\<lparr>dbus_sent := dbus_sent st @ [(NC_NTF_DBUS_PATH @ ''/'' @ name (ss ! i), t, r)]\<rparr>"]
    by (auto simp: Let_def ss_def [symmetric] i_def [symmetric] dr split: option.splits)
qed

lemma event_new_eq:
  assumes "ncntf_config st" and "distinct (map name (streams st))"
    and "event_prepare e etime ev = Some (en, t, r, len)"
  shows "ncntf_event_new e st etime ev =
           (EXIT_SUCCESS,
            st\<lparr>streams := map (logged e en len t r) (streams st),
               dbus_sent := (if dbus st then dbus_sent st @ announced e en t r (streams st)
                             else dbus_sent st)\<rparr>)"
  using assms log_loop_eq [of st "length (streams st)" e en len t r]
    announce_loop_eq [of "st\<lparr>streams := map (logged e en len t r) (streams st)\<rparr>"
       "length (streams st)" e en t r]
  by (simp add: ncntf_event_new_def Let_def comp_def)

section \<open>Publishing: the claims\<close>

lemma announced_no_fault:
  "\<forall>s \<in> set ss. dbus_faults e (name s) = None \<Longrightarrow>
   announced e en t r ss =
     map (\<lambda>s. (NC_NTF_DBUS_PATH @ ''/'' @ name s, t, r)) (filter (\<lambda>s. allowed s en) ss)"
  by (induction ss) simp_all

lemma announced_subset:
  "m \<in> set (announced e en t r ss) \<Longrightarrow>
   \<exists>s \<in> set ss. allowed s en \<and> m = (NC_NTF_DBUS_PATH @ ''/'' @ name s, t, r)"
  by (induction ss) (auto split: if_splits)

lemma announced_time:
  "m \<in> set (announced e en t r ss) \<Longrightarrow> fst (snd m) = t"
  by (induction ss) (auto split: if_splits)

text \<open>
  Claim C6. In a publish on an initialised library whose streams have distinct names
  and whose event can be built: every stream with replay enabled whose allow-list
  admits the event name, and whose lock and three writes succeed, has the record
  (length, timestamp, text) appended to its file; a stream that has replay disabled
  or does not admit the event is left exactly as it was, file included; with the bus
  connected and no bus call failing, one \<open>Event\<close> signal is sent for every stream that
  admits the event, whatever its replay flag, in the order of the list; and in every
  case each signal sent is addressed to a stream that admits the event, so none is
  sent for a stream that does not.
\<close>

theorem event_new_footprint:
  assumes "ncntf_config st" and "distinct (map name (streams st))"
    and "event_prepare e etime ev = Some (en, t, r, len)"
  shows "length (streams (snd (ncntf_event_new e st etime ev))) = length (streams st)
    \<and> (\<forall>i < length (streams st).
          (replay (streams st ! i) \<noteq> 0 \<and> allowed (streams st ! i) en
           \<and> \<not> lockf_fails e (name (streams st ! i))
           \<and> writes_accepted (write_results e (name (streams st ! i)))
           \<longrightarrow> events_file (streams (snd (ncntf_event_new e st etime ev)) ! i)
                 = events_file (streams st ! i) @ record_bytes len t r)
        \<and> (\<not> (replay (streams st ! i) \<noteq> 0 \<and> allowed (streams st ! i) en)
           \<longrightarrow> streams (snd (ncntf_event_new e st etime ev)) ! i = streams st ! i))
    \<and> (dbus st \<and> (\<forall>s \<in> set (streams st). dbus_faults e (name s) = None)
        \<longrightarrow> dbus_sent (snd (ncntf_event_new e st etime ev))
              = dbus_sent st
                @ map (\<lambda>s. (NC_NTF_DBUS_PATH @ ''/'' @ name s, t, r))
                    (filter (\<lambda>s. allowed s en) (streams st)))
    \<and> (\<exists>new. dbus_sent (snd (ncntf_event_new e st etime ev)) = dbus_sent st @ new
          \<and> (\<forall>m \<in> set new. \<exists>s \<in> set (streams st).
                 allowed s en \<and> m = (NC_NTF_DBUS_PATH @ ''/'' @ name s, t, r)))"
proof -
  note eq = event_new_eq [OF assms]
  have a: "length (streams (snd (ncntf_event_new e st etime ev))) = length (streams st)"
    by (simp add: eq)
  have b: "\<forall>i < length (streams st).
          (replay (streams st ! i) \<noteq> 0 \<and> allowed (streams st ! i) en
           \<and> \<not> lockf_fails e (name (streams st ! i))
           \<and> writes_accepted (write_results e (name (streams st ! i)))
           \<longrightarrow> events_file (streams (snd (ncntf_event_new e st etime ev)) ! i)
                 = events_file (streams st ! i) @ record_bytes len t r)
        \<and> (\<not> (replay (streams st ! i) \<noteq> 0 \<and> allowed (streams st ! i) en)
           \<longrightarrow> streams (snd (ncntf_event_new e st etime ev)) ! i = streams st ! i)"
    by (simp add: eq logged_def log_event_accepted)
  have c: "dbus st \<and> (\<forall>s \<in> set (streams st). dbus_faults e (name s) = None)
        \<longrightarrow> dbus_sent (snd (ncntf_event_new e st etime ev))
              = dbus_sent st
                @ map (\<lambda>s. (NC_NTF_DBUS_PATH @ ''/'' @ name s, t, r))
                    (filter (\<lambda>s. allowed s en) (streams st))"
    by (simp add: eq announced_no_fault)
  have d: "\<exists>new. dbus_sent (snd (ncntf_event_new e st etime ev)) = dbus_sent st @ new
          \<and> (\<forall>m \<in> set new. \<exists>s \<in> set (streams st).
                 allowed s en \<and> m = (NC_NTF_DBUS_PATH @ ''/'' @ name s, t, r))"
  proof (cases "dbus st")
    case True
    then have "dbus_sent (snd (ncntf_event_new e st etime ev))
                = dbus_sent st @ announced e en t r (streams st)"
      by (simp add: eq)
    then show ?thesis using announced_subset [of _ e en t r "streams st"] by blast
  next
    case False
    then have "dbus_sent (snd (ncntf_event_new e st etime ev)) = dbus_sent st @ []"
      by (simp add: eq)
    then show ?thesis by (metis empty_iff list.set(1))
  qed
  from a b c d show ?thesis by blast
qed

theorem event_new_footprint_witness:
  "ncntf_config ex_state \<and> distinct (map name (streams ex_state))
   \<and> event_prepare ex_env 1000 ex_event
       = Some (''x'', 1000, ex_record ''1970-01-01T00:16:40Z'', 171)
   \<and> events_file (streams (snd (ncntf_event_new ex_env ex_state 1000 ex_event)) ! 0)
       = events_file (streams ex_state ! 0)
         @ record_bytes 171 1000 (ex_record ''1970-01-01T00:16:40Z'')
   \<and> streams (snd (ncntf_event_new ex_env ex_state 1000 ex_event)) ! 1 = streams ex_state ! 1
   \<and> streams (snd (ncntf_event_new ex_env ex_state 1000 ex_event)) ! 2 = streams ex_state ! 2
   \<and> dbus_sent (snd (ncntf_event_new ex_env ex_state 1000 ex_event))
       = [(NC_NTF_DBUS_PATH @ ''/A'', 1000, ex_record ''1970-01-01T00:16:40Z''),
          (NC_NTF_DBUS_PATH @ ''/B'', 1000, ex_record ''1970-01-01T00:16:40Z'')]"
proof -
  note fp = event_new_footprint [OF ex_config ex_distinct ex_prepare]
  have l: "length (streams ex_state) = 3" by (simp add: ex_state_def)
  have r0: "replay (streams ex_state ! 0) \<noteq> 0" and r1: "replay (streams ex_state ! 1) = 0"
    by (simp_all add: ex_state_def ex_stream_def Let_def)
  have ok: "\<not> lockf_fails ex_env n" "writes_accepted (write_results ex_env n)"
    "dbus_faults ex_env n = None" for n
    by (simp_all add: ex_env_def writes_accepted_def)
  have d: "dbus ex_state" "dbus_sent ex_state = []" by (simp_all add: ex_state_def)
  have f: "filter (\<lambda>s. allowed s ''x'') (streams ex_state)
             = [streams ex_state ! 0, streams ex_state ! 1]"
    using ex_allowed_A ex_allowed_B ex_not_allowed_C by (simp add: ex_state_def)
  have n: "name (streams ex_state ! 0) = ''A''" "name (streams ex_state ! 1) = ''B''"
    by (simp_all add: ex_state_def)
  from fp have "events_file (streams (snd (ncntf_event_new ex_env ex_state 1000 ex_event)) ! 0)
       = events_file (streams ex_state ! 0)
         @ record_bytes 171 1000 (ex_record ''1970-01-01T00:16:40Z'')"
    using l r0 ex_allowed_A ok by simp
  moreover from fp have
    "streams (snd (ncntf_event_new ex_env ex_state 1000 ex_event)) ! 1 = streams ex_state ! 1"
    using l r1 by simp
  moreover from fp have
    "streams (snd (ncntf_event_new ex_env ex_state 1000 ex_event)) ! 2 = streams ex_state ! 2"
    using l ex_not_allowed_C by simp
  moreover from fp have "dbus_sent (snd (ncntf_event_new ex_env ex_state 1000 ex_event))
       = [(NC_NTF_DBUS_PATH @ ''/A'', 1000, ex_record ''1970-01-01T00:16:40Z''),
          (NC_NTF_DBUS_PATH @ ''/B'', 1000, ex_record ''1970-01-01T00:16:40Z'')]"
    using d ok f n by simp
  ultimately show ?thesis using ex_config ex_distinct ex_prepare by blast
qed


text \<open>
  Claim C3. In a publish, for a stream that is written to (replay enabled, event
  admitted, lock taken): when one of the three writes of the record fails, and the
  truncation that follows does not fail itself, the file has the content it had
  before the append, and the offset is at its old end.
\<close>

theorem event_new_append_reverted:
  assumes "ncntf_config st" and "distinct (map name (streams st))"
    and "event_prepare e etime ev = Some (en, t, r, len)"
    and "i < length (streams st)"
    and "replay (streams st ! i) \<noteq> 0" and "allowed (streams st ! i) en"
    and "\<not> lockf_fails e (name (streams st ! i))"
    and "\<not> writes_accepted (write_results e (name (streams st ! i)))"
    and "\<not> ftruncate_fails e (name (streams st ! i))"
  shows "events_file (streams (snd (ncntf_event_new e st etime ev)) ! i)
           = events_file (streams st ! i)
       \<and> events_pos (streams (snd (ncntf_event_new e st etime ev)) ! i)
           = length (events_file (streams st ! i))"
  using assms(4-) log_event_reverted [of e "streams st ! i" len t r]
  by (simp add: event_new_eq [OF assms(1-3)] logged_def)

theorem event_new_append_reverted_witness:
  "\<not> writes_accepted [Written, WriteError EIO]
   \<and> events_file (streams (snd (ncntf_event_new
         ex_env_write_fails ex_state 1000 ex_event)) ! 0)
       = events_file (streams ex_state ! 0)
   \<and> events_pos (streams (snd (ncntf_event_new
         ex_env_write_fails ex_state 1000 ex_event)) ! 0)
       = length (events_file (streams ex_state ! 0))"
proof -
  let ?e = "ex_env_write_fails"
  have w: "\<not> writes_accepted [Written, WriteError EIO]"
    by (simp add: writes_accepted_def)
  have i: "0 < length (streams ex_state)" by (simp add: ex_state_def)
  have r: "replay (streams ex_state ! 0) \<noteq> 0"
    by (simp add: ex_state_def ex_stream_def Let_def)
  have l: "\<not> lockf_fails ?e (name (streams ex_state ! 0))"
    by (simp add: ex_env_write_fails_def ex_env_faulty_def ex_env_def)
  have w': "\<not> writes_accepted (write_results ?e (name (streams ex_state ! 0)))"
    using w by (simp add: ex_env_write_fails_def ex_env_faulty_def)
  have f: "\<not> ftruncate_fails ?e (name (streams ex_state ! 0))"
    by (simp add: ex_env_write_fails_def ex_env_faulty_def ex_env_def)
  from event_new_append_reverted
         [OF ex_config ex_distinct ex_prepare_write_fails i r ex_allowed_A l w' f] w
  show ?thesis by simp
qed

text \<open>
  The result of \<open>ncntf_event_new\<close> is decided before the first stream is visited:
  \<open>ret\<close> is set to \<open>EXIT_FAILURE\<close> only where the event is put together, and neither pass
  over the streams assigns it. So the call fails exactly when the library is not
  initialised or the event cannot be built, whatever happens to the appends and to the
  signals.
\<close>

lemma event_new_returns:
  "fst (ncntf_event_new e st etime ev) =
     (if ncntf_config st \<and> event_prepare e etime ev \<noteq> None then EXIT_SUCCESS
      else EXIT_FAILURE)"
  by (cases "event_prepare e etime ev") (auto simp: ncntf_event_new_def Let_def)

text \<open>
  A failure on the bus alone: with the replay stream \<open>A\<close> admitting the event, every
  append accepted and every D-Bus send failing, the record is stored, nothing is sent
  and the result is \<open>EXIT_SUCCESS\<close>, as the comments of the second pass say (the event
  is already stored).
\<close>

lemma event_new_bus_failure:
  "dbus ex_state \<and> allowed (streams ex_state ! 0) ''x''
   \<and> dbus_faults ex_env_bus_down ''A'' = Some SendFailed
   \<and> events_file (streams (snd (ncntf_event_new ex_env_bus_down ex_state 1000 ex_event)) ! 0)
       = events_file (streams ex_state ! 0)
         @ record_bytes 171 1000 (ex_record ''1970-01-01T00:16:40Z'')
   \<and> dbus_sent (snd (ncntf_event_new ex_env_bus_down ex_state 1000 ex_event)) = []
   \<and> fst (ncntf_event_new ex_env_bus_down ex_state 1000 ex_event) = EXIT_SUCCESS"
proof -
  let ?e = "ex_env_bus_down"
  note eq = event_new_eq [OF ex_config ex_distinct ex_prepare_bus_down]
  have ok: "\<not> lockf_fails ?e n" "writes_accepted (write_results ?e n)" for n
    by (simp_all add: ex_env_bus_down_def ex_env_faulty_def ex_env_def writes_accepted_def)
  have r: "replay (streams ex_state ! 0) \<noteq> 0"
    by (simp add: ex_state_def ex_stream_def Let_def)
  have a: "dbus ex_state" by (simp add: ex_state_def)
  have b: "dbus_faults ?e ''A'' = Some SendFailed"
    by (simp add: ex_env_bus_down_def ex_env_faulty_def)
  have c: "events_file (streams (snd (ncntf_event_new ?e ex_state 1000 ex_event)) ! 0)
       = events_file (streams ex_state ! 0)
         @ record_bytes 171 1000 (ex_record ''1970-01-01T00:16:40Z'')"
    using ex_allowed_A r log_event_accepted [OF ok(1) ok(2)]
    by (simp add: eq) (simp add: ex_state_def logged_def)
  have d: "dbus_sent (snd (ncntf_event_new ?e ex_state 1000 ex_event)) = []"
    by (simp add: eq)
       (simp add: ex_state_def ex_env_bus_down_def ex_env_faulty_def allowed_ex_stream)
  have f: "fst (ncntf_event_new ?e ex_state 1000 ex_event) = EXIT_SUCCESS"
    by (simp add: eq)
  from a ex_allowed_A b c d f show ?thesis by blast
qed

text \<open>
  Claim C2 fails on the code. A failed append is not reported: the branch taken after a
  failed write (\<open>write_failed\<close>) warns and truncates the file, and does not set \<open>ret\<close>.
  In the example the stream \<open>A\<close> keeps a replay log and admits the event \<open>x\<close>, its lock
  is taken, the first write of the record succeeds and the second fails with \<open>EIO\<close>:
  the file of \<open>A\<close> is left without the record, the signals for \<open>A\<close> and \<open>B\<close> are sent,
  and \<open>ncntf_event_new\<close> returns \<open>EXIT_SUCCESS\<close>.
\<close>

theorem event_new_append_failure_unreported:
  "ncntf_config ex_state
   \<and> event_prepare ex_env_write_fails 1000 ex_event
       = Some (''x'', 1000, ex_record ''1970-01-01T00:16:40Z'', 171)
   \<and> name (streams ex_state ! 0) = ''A''
   \<and> replay (streams ex_state ! 0) = 1 \<and> allowed (streams ex_state ! 0) ''x''
   \<and> lockf_fails ex_env_write_fails ''A'' = False
   \<and> write_results ex_env_write_fails ''A'' = [Written, WriteError EIO]
   \<and> writes_accepted [Written, WriteError EIO] = False
   \<and> events_file (streams (snd (ncntf_event_new ex_env_write_fails ex_state 1000 ex_event)) ! 0)
       = events_file (streams ex_state ! 0)
   \<and> dbus_sent (snd (ncntf_event_new ex_env_write_fails ex_state 1000 ex_event))
       = [(NC_NTF_DBUS_PATH @ ''/A'', 1000, ex_record ''1970-01-01T00:16:40Z''),
          (NC_NTF_DBUS_PATH @ ''/B'', 1000, ex_record ''1970-01-01T00:16:40Z'')]
   \<and> fst (ncntf_event_new ex_env_write_fails ex_state 1000 ex_event) = EXIT_SUCCESS"
proof -
  let ?e = "ex_env_write_fails"
  note eq = event_new_eq [OF ex_config ex_distinct ex_prepare_write_fails]
  have n: "name (streams ex_state ! 0) = ''A''" by (simp add: ex_state_def)
  have r: "replay (streams ex_state ! 0) = 1"
    by (simp add: ex_state_def ex_stream_def Let_def)
  have l: "lockf_fails ?e m = False" "ftruncate_fails ?e m = False"
    "dbus_faults ?e m = None" for m
    by (simp_all add: ex_env_write_fails_def ex_env_faulty_def ex_env_def)
  have w: "write_results ?e m = [Written, WriteError EIO]" for m
    by (simp add: ex_env_write_fails_def ex_env_faulty_def)
  have v: "writes_accepted [Written, WriteError EIO] = False"
    by (simp add: writes_accepted_def)
  have lg: "events_file (log_event ?e (streams ex_state ! 0) 171 1000
                (ex_record ''1970-01-01T00:16:40Z'')) = events_file (streams ex_state ! 0)"
    using log_event_reverted [of ?e "streams ex_state ! 0"] l w v by simp
  have c: "events_file (streams (snd (ncntf_event_new ?e ex_state 1000 ex_event)) ! 0)
       = events_file (streams ex_state ! 0)"
    using ex_allowed_A r lg by (simp add: eq) (simp add: ex_state_def logged_def)
  have d: "dbus_sent (snd (ncntf_event_new ?e ex_state 1000 ex_event))
       = [(NC_NTF_DBUS_PATH @ ''/A'', 1000, ex_record ''1970-01-01T00:16:40Z''),
          (NC_NTF_DBUS_PATH @ ''/B'', 1000, ex_record ''1970-01-01T00:16:40Z'')]"
    by (simp add: eq) (simp add: ex_state_def allowed_ex_stream l)
  have f: "fst (ncntf_event_new ?e ex_state 1000 ex_event) = EXIT_SUCCESS"
    by (simp add: eq)
  from ex_config ex_prepare_write_fails n r ex_allowed_A l(1) w v c d f
  show ?thesis by blast
qed

text \<open>
  Claim C5, as stated, fails: for \<open>etime = -2\<close>, which is negative, the signals sent
  and the record appended carry \<open>-2\<close>, not the time of the clock (2000 here).
\<close>

theorem event_new_negative_time_counterexample:
  "(- 2 :: time_t) <s 0 \<and> time_now ex_env = 2000
   \<and> dbus_sent (snd (ncntf_event_new ex_env ex_state (- 2) ex_event))
       = [(NC_NTF_DBUS_PATH @ ''/A'', - 2, ex_record ''1969-12-31T23:59:58Z''),
          (NC_NTF_DBUS_PATH @ ''/B'', - 2, ex_record ''1969-12-31T23:59:58Z'')]
   \<and> events_file (streams (snd (ncntf_event_new ex_env ex_state (- 2) ex_event)) ! 0)
       = events_file (streams ex_state ! 0)
         @ record_bytes 171 (- 2) (ex_record ''1969-12-31T23:59:58Z'')"
proof -
  have a: "(- 2 :: time_t) <s 0" by (simp add: word_sless_alt)
  have b: "time_now ex_env = 2000" by (simp add: ex_env_def)
  have ok: "\<not> lockf_fails ex_env n" "writes_accepted (write_results ex_env n)"
    "dbus_faults ex_env n = None" for n
    by (simp_all add: ex_env_def writes_accepted_def)
  have c: "dbus_sent (snd (ncntf_event_new ex_env ex_state (- 2) ex_event))
       = [(NC_NTF_DBUS_PATH @ ''/A'', - 2, ex_record ''1969-12-31T23:59:58Z''),
          (NC_NTF_DBUS_PATH @ ''/B'', - 2, ex_record ''1969-12-31T23:59:58Z'')]"
    by (simp add: event_new_eq [OF ex_config ex_distinct ex_prepare_negative])
       (simp add: ex_state_def allowed_ex_stream ok)
  have r: "replay (streams ex_state ! 0) \<noteq> 0"
    by (simp add: ex_state_def ex_stream_def Let_def)
  have d: "events_file (streams (snd (ncntf_event_new ex_env ex_state (- 2) ex_event)) ! 0)
       = events_file (streams ex_state ! 0)
         @ record_bytes 171 (- 2) (ex_record ''1969-12-31T23:59:58Z'')"
    using ex_allowed_A r log_event_accepted [OF ok(1) ok(2)]
    by (simp add: event_new_eq [OF ex_config ex_distinct ex_prepare_negative])
       (simp add: ex_state_def logged_def)
  from a b c d show ?thesis by blast
qed

text \<open>
  Claim C5, amended. The time of a published event is \<open>etime\<close> whenever \<open>etime\<close> differs
  from \<open>-1\<close>, and the current time of the clock when \<open>etime\<close> is \<open>-1\<close>: every signal sent
  by the call carries it, and so does every record appended.
\<close>

theorem event_new_timestamp:
  assumes "ncntf_config st" and "distinct (map name (streams st))"
    and "event_prepare e etime ev = Some (en, t, r, len)"
  shows "(etime \<noteq> - 1 \<longrightarrow> t = etime) \<and> (etime = - 1 \<longrightarrow> t = time_now e)
    \<and> (\<forall>m \<in> set (drop (length (dbus_sent st)) (dbus_sent (snd (ncntf_event_new e st etime ev)))).
          fst (snd m) = t)
    \<and> (\<forall>i < length (streams st).
          replay (streams st ! i) \<noteq> 0 \<and> allowed (streams st ! i) en
          \<and> \<not> lockf_fails e (name (streams st ! i))
          \<and> writes_accepted (write_results e (name (streams st ! i)))
          \<longrightarrow> events_file (streams (snd (ncntf_event_new e st etime ev)) ! i)
                = events_file (streams st ! i) @ le_bytes 4 (unat len) @ le_bytes 8 (unat t)
                  @ take (unat len) (r @ [NUL]))"
proof -
  note eq = event_new_eq [OF assms]
  have a: "(etime \<noteq> - 1 \<longrightarrow> t = etime) \<and> (etime = - 1 \<longrightarrow> t = time_now e)"
    using assms(3)
    by (auto simp: event_prepare_def Let_def split: option.splits if_splits)
  have b: "\<forall>m \<in> set (drop (length (dbus_sent st)) (dbus_sent (snd (ncntf_event_new e st etime ev)))).
          fst (snd m) = t"
    using announced_time [of _ e en t r "streams st"] by (auto simp: eq)
  have c: "\<forall>i < length (streams st).
          replay (streams st ! i) \<noteq> 0 \<and> allowed (streams st ! i) en
          \<and> \<not> lockf_fails e (name (streams st ! i))
          \<and> writes_accepted (write_results e (name (streams st ! i)))
          \<longrightarrow> events_file (streams (snd (ncntf_event_new e st etime ev)) ! i)
                = events_file (streams st ! i) @ le_bytes 4 (unat len) @ le_bytes 8 (unat t)
                  @ take (unat len) (r @ [NUL])"
    by (simp add: eq logged_def log_event_accepted record_bytes_def)
  from a b c show ?thesis by blast
qed

theorem event_new_timestamp_witness:
  "event_prepare ex_env (- 1) ex_event
     = Some (''x'', 2000, ex_record ''1970-01-01T00:33:20Z'', 171)
   \<and> time_now ex_env = 2000
   \<and> list_all (\<lambda>m. fst (snd m) = 2000)
         (dbus_sent (snd (ncntf_event_new ex_env ex_state (- 1) ex_event)))
   \<and> events_file (streams (snd (ncntf_event_new ex_env ex_state 1000 ex_event)) ! 0)
       = events_file (streams ex_state ! 0) @ le_bytes 4 171 @ le_bytes 8 1000
         @ take 171 (ex_record ''1970-01-01T00:16:40Z'' @ [NUL])"
proof -
  have b: "time_now ex_env = 2000" by (simp add: ex_env_def)
  have d: "dbus_sent ex_state = []" by (simp add: ex_state_def)
  have ok: "\<not> lockf_fails ex_env n" "writes_accepted (write_results ex_env n)" for n
    by (simp_all add: ex_env_def writes_accepted_def)
  have i: "0 < length (streams ex_state)" by (simp add: ex_state_def)
  have r: "replay (streams ex_state ! 0) \<noteq> 0"
    by (simp add: ex_state_def ex_stream_def Let_def)
  from event_new_timestamp [OF ex_config ex_distinct ex_prepare_now]
    event_new_timestamp [OF ex_config ex_distinct ex_prepare] b d ok i r ex_allowed_A ex_prepare_now
  show ?thesis by (simp add: list_all_iff)
qed

section \<open>The iterator\<close>

lemma try_dbus_Some:
  "try_dbus c start stop q = (Some (tx, t), q') \<Longrightarrow>
   \<exists>m \<in> set q. is_event_signal m \<and>
      (\<exists>as. msg_args m = DBUS_TYPE_UINT64 t # DBUS_TYPE_STRING tx # as)
      \<and> (start = - 1 \<or> \<not> t <s start) \<and> (stop = - 1 \<or> \<not> stop <s t)"
  apply (induction c start stop q rule: try_dbus.induct)
   apply simp
  apply (simp split: if_splits list.splits dbus_arg.splits)
  done

text \<open>
  Claim C8. With \<open>start\<close> unset (\<open>-1\<close>), on an initialised library and for a stream that
  \<open>ncntf_stream_get\<close> delivers, \<open>ncntf_stream_iter_next\<close> sets \<open>replay_done\<close> to 1 and
  leaves every stream as it was (no record is read, no offset moves); what it
  returns is \<open>NULL\<close> or the text and time of an \<open>Event\<close> signal that was waiting on the
  bus, never a text it made up itself.
\<close>

theorem iter_next_live_only:
  assumes "ncntf_config st" and "ncntf_stream_get e st stream = (Some i, st1)"
    and "ncntf_replay_done st1 = Some rd"
  shows "\<exists>res q. ncntf_stream_iter_next e st stream (- 1) stop =
           Some (res, st1\<lparr>ncntf_replay_done := Some 1, dbus_incoming := q\<rparr>)
         \<and> (case res of
              None \<Rightarrow> True
            | Some (tx, t) \<Rightarrow>
                \<exists>m \<in> set (dbus_incoming st1). is_event_signal m \<and>
                  (\<exists>as. msg_args m = DBUS_TYPE_UINT64 t # DBUS_TYPE_STRING tx # as))"
proof -
  obtain res q where tq: "try_dbus (dbus_connected st1) (- 1) stop (dbus_incoming st1) = (res, q)"
    by (cases "try_dbus (dbus_connected st1) (- 1) stop (dbus_incoming st1)")
  have "ncntf_stream_iter_next e st stream (- 1) stop =
          Some (res, st1\<lparr>ncntf_replay_done := Some 1, dbus_incoming := q\<rparr>)"
    using assms tq
    apply (simp add: ncntf_stream_iter_next_def)
    apply (subst iter_loop.simps)
    apply (simp add: Let_def)
    done
  moreover have "case res of
              None \<Rightarrow> True
            | Some (tx, t) \<Rightarrow>
                \<exists>m \<in> set (dbus_incoming st1). is_event_signal m \<and>
                  (\<exists>as. msg_args m = DBUS_TYPE_UINT64 t # DBUS_TYPE_STRING tx # as)"
  proof (cases res)
    case None
    then show ?thesis by simp
  next
    case (Some p)
    obtain tx t where p: "p = (tx, t)" by (cases p)
    from try_dbus_Some [of "dbus_connected st1" "- 1" stop "dbus_incoming st1" tx t q] tq Some p
    show ?thesis by auto
  qed
  ultimately show ?thesis by blast
qed

theorem iter_next_live_only_witness:
  "ncntf_config ex_state
   \<and> ncntf_stream_get ex_env ex_state (Some ''A'') = (Some 0, ex_state)
   \<and> ncntf_replay_done ex_state = Some 0
   \<and> (\<exists>res q. ncntf_stream_iter_next ex_env ex_state (Some ''A'') (- 1) (- 1) =
           Some (res, ex_state\<lparr>ncntf_replay_done := Some 1, dbus_incoming := q\<rparr>)
         \<and> (case res of
              None \<Rightarrow> True
            | Some (tx, t) \<Rightarrow>
                \<exists>m \<in> set (dbus_incoming ex_state). is_event_signal m \<and>
                  (\<exists>as. msg_args m = DBUS_TYPE_UINT64 t # DBUS_TYPE_STRING tx # as)))"
proof -
  have h1: "ncntf_config ex_state" by (simp add: ex_state_def)
  have h2: "ncntf_stream_get ex_env ex_state (Some ''A'') = (Some 0, ex_state)"
    by (rule ex_get_A)
  have h3: "ncntf_replay_done ex_state = Some 0" by (simp add: ex_state_def)
  from iter_next_live_only [OF h1 h2 h3, of "- 1"] h1 h2 h3 show ?thesis by blast
qed

text \<open>
  In the example the call with both bounds unset returns the live message that was
  waiting.
\<close>

lemma ex_iter_next_live:
  "ncntf_stream_iter_next ex_env ex_state (Some ''A'') (- 1) (- 1) =
     Some (Some (''<live/>'', 1500),
           ex_state\<lparr>ncntf_replay_done := Some 1, dbus_incoming := []\<rparr>)"
  apply (simp add: ncntf_stream_iter_next_def ex_get_A)
  apply (subst iter_loop.simps)
  apply (simp add: ex_state_def Let_def is_event_signal_def)
  done

text \<open>
  Claim C10. When \<open>start\<close> and \<open>stop\<close> are both set (different from \<open>-1\<close>) and \<open>stop\<close> is
  before \<open>start\<close>, \<open>ncntf_stream_iter_next\<close> returns \<open>NULL\<close> and the state is the one it
  was called in: no stream was looked up, no offset moved, \<open>replay_done\<close> and the
  messages waiting on the bus are untouched.
\<close>

theorem iter_next_early_end:
  "start \<noteq> - 1 \<Longrightarrow> stop \<noteq> - 1 \<Longrightarrow> stop <s start \<Longrightarrow>
   ncntf_stream_iter_next e st stream start stop = Some (None, st)"
  by (simp add: ncntf_stream_iter_next_def)

theorem iter_next_early_end_witness:
  "(200 :: time_t) \<noteq> - 1 \<and> (100 :: time_t) \<noteq> - 1 \<and> (100 :: time_t) <s 200
   \<and> ncntf_stream_iter_next ex_env ex_state (Some ''A'') 200 100 = Some (None, ex_state)"
proof -
  have h1: "(200 :: time_t) \<noteq> - 1" by simp
  have h2: "(100 :: time_t) \<noteq> - 1" by simp
  have h3: "(100 :: time_t) <s 200" by simp
  from iter_next_early_end [OF h1 h2 h3] h1 h2 h3 show ?thesis by blast
qed

subsection \<open>Replay from the file\<close>

lemma length_le_bytes [simp]: "length (le_bytes k n) = k"
  by (induction k arbitrary: n) simp_all

lemma le_bytes_Nil [simp]: "le_bytes k n = [] \<longleftrightarrow> k = 0"
  by (cases k) simp_all

lemma le_nat_le_bytes: "le_nat (le_bytes k n) = n mod 256 ^ k"
  by (induction k arbitrary: n) (simp_all add: mod_mult2_eq)

lemma le_word32 [simp]: "(of_nat (le_nat (le_bytes 4 (unat (w :: 32 word)))) :: 32 word) = w"
  using unsigned_less [of w, where 'a = nat] by (simp add: le_nat_le_bytes)

lemma le_word64 [simp]: "(of_nat (le_nat (le_bytes 8 (unat (w :: 64 word)))) :: 64 word) = w"
  using unsigned_less [of w, where 'a = nat] by (simp add: le_nat_le_bytes)

lemma read_at_here: "length b = n \<Longrightarrow> read_at (a @ b @ c) (length a) n = b"
  by (simp add: read_at_def)

lemma fill_full [simp]: "length old \<le> length got \<Longrightarrow> fill got old = got"
  by (simp add: fill_def)

lemma c_str_text [simp]: "NUL \<notin> set r \<Longrightarrow> c_str (r @ NUL # xs) = r"
  by (induction r) (auto simp: c_str_def)

lemma unat_len: "n < 2 ^ 31 - 1 \<Longrightarrow> unat (of_nat n + 1 :: 32 word) = Suc n"
  by (simp add: unat_word_ariths unat_of_nat)

lemma sint_len: "n < 2 ^ 31 - 1 \<Longrightarrow> sint (of_nat n + 1 :: 32 word) = int n + 1"
proof -
  assume a: "n < 2 ^ 31 - 1"
  have "(of_nat n + 1 :: 32 word) = of_nat (Suc n)" by simp
  then have "sint (of_nat n + 1 :: 32 word) = signed_take_bit 31 (int (Suc n))"
    by (simp only: signed_of_nat) simp
  also have "\<dots> = int (Suc n)"
    using a by (simp add: signed_take_bit_int_eq_self_iff)
  finally show ?thesis by simp
qed

lemma stored_bytes:
  "length r < 2 ^ 31 - 1 \<Longrightarrow>
   stored (t, r) = le_bytes 4 (unat (of_nat (length r) + 1 :: 32 word))
                   @ le_bytes 8 (unat t) @ r @ [NUL]"
  by (simp add: stored_def record_bytes_def unat_len)

lemma length_stored: "length r < 2 ^ 31 - 1 \<Longrightarrow> length (stored (t, r)) = 13 + length r"
  by (simp add: stored_bytes)

lemma in_window_iff:
  "in_window start stop t \<longleftrightarrow> \<not> ((start \<noteq> - 1 \<and> t <s start) \<or> (stop \<noteq> - 1 \<and> stop <s t))"
  if "start \<noteq> - 1"
  using that by (auto simp: in_window_def word_sle_eq word_sless_alt)


lemma read_at_skip: "length a = k \<Longrightarrow> read_at (a @ xs) (k + j) n = read_at xs j n"
  by (simp add: read_at_def)

lemma read_at_0: "length b = n \<Longrightarrow> read_at (b @ c) 0 n = b"
  by (simp add: read_at_def)

lemma locked_same: "locked s = 0 \<Longrightarrow> s\<lparr>locked := 0\<rparr> = s"
  by (cases s) simp

lemma unlock_same: "locked s = 0 \<Longrightarrow> s\<lparr>events_pos := p, locked := 0\<rparr> = s\<lparr>events_pos := p\<rparr>"
  by (cases s) simp

lemma pos_same: "events_pos s = p \<Longrightarrow> s\<lparr>events_pos := p\<rparr> = s"
  by (cases s) simp

lemma iter_loop_at_end:
  assumes "i < length (streams st)" and "ncntf_replay_done st = Some 0"
    and "events_pos (streams st ! i) = length (events_file (streams st ! i))"
  shows "iter_loop e start stop i st =
           Some (Some (replayComplete e (time_now e), time_now e),
                 st\<lparr>ncntf_replay_done := Some 1\<rparr>)"
proof -
  have "(streams st ! i)\<lparr>events_pos := length (events_file (streams st ! i))\<rparr> = streams st ! i"
    using assms(3) by (rule pos_same)
  then have "(streams st)[i := (streams st ! i)\<lparr>events_pos := length (events_file (streams st ! i))\<rparr>]
               = streams st"
    by (simp only: list_update_id)
  then show ?thesis
    using assms by (subst iter_loop.simps) (simp add: Let_def)
qed

lemma iter_loop_record:
  assumes i: "i < length (streams st)" and rd: "ncntf_replay_done st = Some 0"
    and st: "start \<noteq> - 1" and rp: "replay (streams st ! i) = 1"
    and lk: "\<not> lockf_fails e (name (streams st ! i))"
      "\<not> ulockf_fails e (name (streams st ! i))" "locked (streams st ! i) = 0"
    and f: "events_file (streams st ! i) = pre @ stored (t, r) @ post"
    and p: "events_pos (streams st ! i) = length pre"
    and v: "NUL \<notin> set r" "length r < 2 ^ 31 - 1"
  shows "iter_loop e start stop i st =
          (if in_window start stop t
           then Some (Some (r, t),
                  st\<lparr>streams := (streams st)
                     [i := (streams st ! i)\<lparr>events_pos := length pre + length (stored (t, r))\<rparr>]\<rparr>)
           else iter_loop e start stop i
                  (st\<lparr>streams := (streams st)
                     [i := (streams st ! i)\<lparr>events_pos := length pre + length (stored (t, r))\<rparr>]\<rparr>))"
proof -
  define s where "s = streams st ! i"
  define len :: "32 word" where "len = of_nat (length r) + 1"
  define rest where "rest = le_bytes 8 (unat t) @ r @ NUL # post"
  have f': "events_file s = pre @ le_bytes 4 (unat len) @ le_bytes 8 (unat t) @ r @ NUL # post"
    using f v by (simp add: stored_bytes s_def len_def)
  have g1: "read_at (events_file s) (length pre) 4 = le_bytes 4 (unat len)"
    using read_at_here [of "le_bytes 4 (unat len)" 4 pre] by (simp add: f')
  have g2: "read_at (events_file s) (length pre + 4) 8 = le_bytes 8 (unat t)"
  proof -
    have "read_at (events_file s) (length pre + 4) 8
            = read_at ((pre @ le_bytes 4 (unat len)) @ le_bytes 8 (unat t) @ (r @ NUL # post))
                (length (pre @ le_bytes 4 (unat len))) 8"
      by (simp add: f')
    also have "\<dots> = le_bytes 8 (unat t)" by (rule read_at_here) simp
    finally show ?thesis .
  qed
  have ul: "unat len = Suc (length r)" and sl: "sint len = int (length r) + 1"
    using v by (simp_all add: len_def unat_len sint_len)
  have g3: "read_at (events_file s) (12 + length pre) (unat len) = r @ [NUL]"
  proof -
    have "read_at (events_file s) (12 + length pre) (unat len)
            = read_at ((pre @ le_bytes 4 (unat len) @ le_bytes 8 (unat t)) @ (r @ [NUL]) @ post)
                (length (pre @ le_bytes 4 (unat len) @ le_bytes 8 (unat t))) (unat len)"
      by (simp add: f' add.commute)
    also have "\<dots> = r @ [NUL]" by (rule read_at_here) (simp add: ul)
    finally show ?thesis .
  qed
  have l3: "length (take (unat len) (uninit e ''text'')) \<le> length (r @ [NUL])"
    by (simp add: ul)
  have lt: "length pre < length (events_file s)" by (simp add: f')
  have ls: "length (stored (t, r)) = 13 + length r" using v by (simp add: length_stored)
  have p3: "nat (13 + (int a + int b)) = 13 + (a + b)" for a b by simp
  have w: "in_window start stop t \<longleftrightarrow> \<not> ((start \<noteq> - 1 \<and> t <s start) \<or> (stop \<noteq> - 1 \<and> stop <s t))"
    using st by (rule in_window_iff)
  have "iter_loop e start stop i st =
          (if in_window start stop t
           then Some (Some (r, t),
                  st\<lparr>streams := (streams st)[i := s\<lparr>events_pos := 13 + (length pre + length r)\<rparr>]\<rparr>)
           else iter_loop e start stop i
                  (st\<lparr>streams := (streams st)[i := s\<lparr>events_pos := 13 + (length pre + length r)\<rparr>]\<rparr>))"
    apply (subst iter_loop.simps)
    using i rd st rp lk p lt g1 g2 g3 l3 sl v
    apply (simp add: Let_def s_def [symmetric] ncntf_stream_lock_def ncntf_stream_unlock_def w
        unlock_same p3)
    done
  then show ?thesis by (simp add: ls s_def ac_simps)
qed


lemma find_stream_Some:
  "find_stream n ss = Some i \<Longrightarrow> i < length ss \<and> name (ss ! i) = n"
proof (induction ss arbitrary: i)
  case Nil
  then show ?case by simp
next
  case (Cons s ss)
  then show ?case by (cases i) (auto split: if_splits)
qed

lemma find_stream_names:
  "map name ss = map name ss' \<Longrightarrow> find_stream n ss = find_stream n ss'"
proof (induction ss arbitrary: ss')
  case Nil
  then show ?case by simp
next
  case (Cons s ss)
  then obtain t ts where "ss' = t # ts" by (cases ss') auto
  with Cons show ?case by auto
qed

lemma replay_done_same: "ncntf_replay_done st = v \<Longrightarrow> st\<lparr>ncntf_replay_done := v\<rparr> = st"
  by (cases st) simp

lemma iter_next_eq_loop:
  assumes "ncntf_config st" and "find_stream n (streams st) = Some i"
    and "ncntf_replay_done st = Some 0" and "start \<noteq> - 1"
    and "stop = - 1 \<or> \<not> stop <s start"
  shows "ncntf_stream_iter_next e st (Some n) start stop = iter_loop e start stop i st"
proof -
  have eq: "st\<lparr>ncntf_replay_done := Some 0\<rparr> = st"
    using assms(3) by (rule replay_done_same)
  show ?thesis
    using assms(1,2,4,5)
    by (auto simp: ncntf_stream_iter_next_def ncntf_stream_get_def assms(3) eq)
qed

text \<open>
  Claim C7. During file replay (library initialised, stream in the registry with
  replay enabled and its lock working, \<open>start\<close> set, \<open>replay_done\<close> still 0) with the
  offset at the first of the stored records \<open>recs\<close>, successive calls of
  \<open>ncntf_stream_iter_next\<close> return exactly the records whose time lies in the window
  (not before \<open>start\<close> and, when \<open>stop\<close> is set, not after \<open>stop\<close>), each with its text and
  time, in the order of the file, and skip all others; the call after the last of
  them returns the \<open>replayComplete\<close> notification and leaves the offset at the end of
  the file.
\<close>

theorem iter_next_replay_window:
  assumes "ncntf_config st" and "find_stream n (streams st) = Some i"
    and "ncntf_replay_done st = Some 0" and "start \<noteq> - 1"
    and "stop = - 1 \<or> \<not> stop <s start"
    and "replay (streams st ! i) = 1"
    and "\<not> lockf_fails e n" and "\<not> ulockf_fails e n" and "locked (streams st ! i) = 0"
    and "events_file (streams st ! i) = pre @ concat (map stored recs)"
    and "events_pos (streams st ! i) = length pre"
    and "\<forall>rc \<in> set recs. NUL \<notin> set (snd rc) \<and> length (snd rc) < 2 ^ 31 - 1"
  shows "iter_calls (Suc (length (filter (\<lambda>rc. in_window start stop (fst rc)) recs)))
           e st (Some n) start stop
         = Some (map (\<lambda>rc. Some (snd rc, fst rc))
                   (filter (\<lambda>rc. in_window start stop (fst rc)) recs)
                 @ [Some (replayComplete e (time_now e), time_now e)],
                 st\<lparr>streams := (streams st)
                      [i := (streams st ! i)
                         \<lparr>events_pos := length (events_file (streams st ! i))\<rparr>],
                    ncntf_replay_done := Some 1\<rparr>)"
  using assms
proof (induction recs arbitrary: st pre)
  case Nil
  from Nil.prems(2) have i: "i < length (streams st)" by (simp add: find_stream_Some)
  have e: "events_pos (streams st ! i) = length (events_file (streams st ! i))"
    using Nil.prems by simp
  then have "(streams st ! i)\<lparr>events_pos := length (events_file (streams st ! i))\<rparr>
               = streams st ! i"
    by (rule pos_same)
  then have u: "(streams st)[i := (streams st ! i)
                  \<lparr>events_pos := length (events_file (streams st ! i))\<rparr>] = streams st"
    by (simp only: list_update_id)
  have "ncntf_stream_iter_next e st (Some n) start stop
          = Some (Some (replayComplete e (time_now e), time_now e),
                  st\<lparr>ncntf_replay_done := Some 1\<rparr>)"
    using iter_next_eq_loop [OF Nil.prems(1-5)] iter_loop_at_end [OF i Nil.prems(3) e]
    by simp
  then show ?case by (simp add: u)
next
  case (Cons rc recs)
  obtain t r where rc: "rc = (t, r)" by (cases rc)
  define s where "s = streams st ! i"
  define st' where
    "st' = st\<lparr>streams := (streams st)[i := s\<lparr>events_pos := length pre + length (stored (t, r))\<rparr>]\<rparr>"
  from Cons.prems(2) have i: "i < length (streams st)" and nm: "name s = n"
    by (simp_all add: find_stream_Some s_def)
  have v: "NUL \<notin> set r" "length r < 2 ^ 31 - 1"
    using Cons.prems(12) rc by auto
  have f: "events_file s = pre @ stored (t, r) @ concat (map stored recs)"
    using Cons.prems(10) rc by (simp add: s_def)
  have step: "iter_loop e start stop i st =
          (if in_window start stop t then Some (Some (r, t), st')
           else iter_loop e start stop i st')"
    unfolding st'_def s_def
    by (rule iter_loop_record [OF i Cons.prems(3,4,6) _ _ Cons.prems(9) _ Cons.prems(11) v])
       (use Cons.prems nm f in \<open>simp_all add: s_def\<close>)
  have si: "streams st' ! i = s\<lparr>events_pos := length pre + length (stored (t, r))\<rparr>"
    using i by (simp add: st'_def)
  have names: "map name (streams st') = map name (streams st)"
    using i by (simp add: st'_def map_update s_def list_update_same_conv)
  have fs': "find_stream n (streams st') = Some i"
    using find_stream_names [OF names] Cons.prems(2) by simp
  have ih: "iter_calls (Suc (length (filter (\<lambda>rc. in_window start stop (fst rc)) recs)))
           e st' (Some n) start stop
         = Some (map (\<lambda>rc. Some (snd rc, fst rc))
                   (filter (\<lambda>rc. in_window start stop (fst rc)) recs)
                 @ [Some (replayComplete e (time_now e), time_now e)],
                 st'\<lparr>streams := (streams st')
                      [i := (streams st' ! i)
                         \<lparr>events_pos := length (events_file (streams st' ! i))\<rparr>],
                    ncntf_replay_done := Some 1\<rparr>)"
    by (rule Cons.IH [of st' "pre @ stored (t, r)"])
       (use Cons.prems fs' si f in \<open>simp_all add: st'_def s_def\<close>)
  have fin: "st'\<lparr>streams := (streams st')
                      [i := (streams st' ! i)
                         \<lparr>events_pos := length (events_file (streams st' ! i))\<rparr>],
                    ncntf_replay_done := Some 1\<rparr>
           = st\<lparr>streams := (streams st)
                      [i := (streams st ! i)
                         \<lparr>events_pos := length (events_file (streams st ! i))\<rparr>],
                    ncntf_replay_done := Some 1\<rparr>"
    using i by (simp add: st'_def s_def)
  have nx: "ncntf_stream_iter_next e st (Some n) start stop = iter_loop e start stop i st"
    by (rule iter_next_eq_loop [OF Cons.prems(1-5)])
  have nx': "ncntf_stream_iter_next e st' (Some n) start stop = iter_loop e start stop i st'"
    by (rule iter_next_eq_loop [OF _ fs' _ Cons.prems(4,5)])
       (use Cons.prems in \<open>simp_all add: st'_def\<close>)
  show ?case
  proof (cases "in_window start stop t")
    case True
    then show ?thesis
      using nx step ih fin by (simp add: rc)
  next
    case False
    then have "ncntf_stream_iter_next e st (Some n) start stop
                 = ncntf_stream_iter_next e st' (Some n) start stop"
      using nx nx' step by simp
    then have "iter_calls (Suc (length (filter (\<lambda>rc. in_window start stop (fst rc)) recs)))
                 e st (Some n) start stop
               = iter_calls (Suc (length (filter (\<lambda>rc. in_window start stop (fst rc)) recs)))
                 e st' (Some n) start stop"
      by simp
    then show ?thesis
      using False ih fin by (simp add: rc)
  qed
qed


lemma ex_A_file:
  "\<exists>pre. events_file (streams ex_state ! 0) = pre @ ex_records
         \<and> events_pos (streams ex_state ! 0) = length pre"
  by (simp add: ex_state_def ex_stream_def Let_def)

theorem iter_next_replay_window_witness:
  "iter_calls 2 ex_env ex_state (Some ''A'') 150 250
     = Some ([Some (''<b/>'', 200), Some (replayComplete ex_env 2000, 2000)],
             ex_state\<lparr>streams := (streams ex_state)
                  [0 := (streams ex_state ! 0)
                     \<lparr>events_pos := length (events_file (streams ex_state ! 0))\<rparr>],
                ncntf_replay_done := Some 1\<rparr>)"
proof -
  let ?recs = "[(100, ''<a/>''), (200, ''<b/>''), (300, ''<c/>'')] :: (time_t \<times> string) list"
  obtain pre where f: "events_file (streams ex_state ! 0) = pre @ concat (map stored ?recs)"
    and p: "events_pos (streams ex_state ! 0) = length pre"
    using ex_A_file by (auto simp: ex_records_def)
  have h1: "ncntf_config ex_state" by (simp add: ex_state_def)
  have h2: "find_stream ''A'' (streams ex_state) = Some 0" by (simp add: ex_state_def)
  have h3: "ncntf_replay_done ex_state = Some 0" by (simp add: ex_state_def)
  have h4: "(150 :: time_t) \<noteq> - 1" by simp
  have h5: "(250 :: time_t) = - 1 \<or> \<not> (250 :: time_t) <s 150" by simp
  have h6: "replay (streams ex_state ! 0) = 1" by (simp add: ex_state_def ex_stream_def Let_def)
  have h7: "\<not> lockf_fails ex_env ''A''" and h8: "\<not> ulockf_fails ex_env ''A''"
    by (simp_all add: ex_env_def)
  have h9: "locked (streams ex_state ! 0) = 0" by (simp add: ex_state_def ex_stream_def Let_def)
  have h10: "\<forall>rc \<in> set ?recs. NUL \<notin> set (snd rc) \<and> length (snd rc) < 2 ^ 31 - 1" by simp
  have w: "filter (\<lambda>rc. in_window 150 250 (fst rc)) ?recs = [(200, ''<b/>'')]"
    by (simp add: in_window_def)
  have n: "time_now ex_env = 2000" by (simp add: ex_env_def)
  from iter_next_replay_window [OF h1 h2 h3 h4 h5 h6 h7 h8 h9 f p h10, unfolded w]
  show ?thesis by (simp add: n numeral_2_eq_2)
qed

section \<open>The rule store\<close>

lemma strtok_tokens_run:
  "NL \<notin> set xs \<Longrightarrow> strtok_tokens (xs @ ys) acc = strtok_tokens ys (rev xs @ acc)"
  by (induction xs arbitrary: acc) auto

lemma strtok_tokens_line:
  "NL \<notin> set body \<Longrightarrow> body \<noteq> [] \<Longrightarrow> strtok_tokens (body @ [NL]) [] = [body]"
  by (simp add: strtok_tokens_run)

lemma strrchr_nl_last: "strrchr_nl (xs @ [NL]) = Some (length xs)"
  by (induction xs) simp_all

lemma c_str_line:
  "NUL \<notin> set body \<Longrightarrow> 0 < k \<Longrightarrow> c_str (body @ NL # replicate k NUL) = body @ [NL]"
  using c_str_text [of "body @ [NL]" "replicate (k - 1) NUL"]
  by (cases k) simp_all

lemma length_mem_write:
  "off \<le> length m \<Longrightarrow> length (mem_write off bs m) = max (length m) (off + length bs)"
  by (auto simp: mem_write_def)

lemma allow_events_line:
  assumes "find_stream n (streams st) = Some i"
    and "rules (streams st ! i) = Some (body @ NL # replicate k NUL)"
    and "NUL \<notin> set body" and "NL \<notin> set body" and "body \<noteq> []" and "0 < k"
    and "ev \<noteq> body"
  shows "ncntf_stream_allow_events e st (Some n) (Some ev) =
           (EXIT_SUCCESS,
            st\<lparr>streams := (streams st)
                 [i := (streams st ! i)
                    \<lparr>rules := Some (body @ NL # ev @ [NL, NUL]
                                     @ replicate (k - (length ev + 2)) NUL)\<rparr>]\<rparr>)"
  using assms
  by (simp add: ncntf_stream_allow_events_def ncntf_event_isallowed_def ncntf_stream_get_def
      c_str_line strtok_tokens_line strrchr_nl_last mem_write_def Let_def)

text \<open>
  Claim C4 fails on the code. \<open>ncntf_stream_allow_events\<close> has no check of the space
  left. For the rule store of 1048576 bytes of which 5 are free, and the new entry
  \<open>netconf-session-start\<close> (21 characters, a newline and the final zero byte), it
  returns \<open>EXIT_SUCCESS\<close> and the copy runs 18 bytes over the end of the mapped region.
\<close>

theorem allow_events_overflow:
  "length (the (rules (streams ex_full_state ! 0))) = NCNTF_RULES_SIZE
   \<and> c_str (the (rules (streams ex_full_state ! 0))) = ex_full_rules
   \<and> length ex_full_rules = NCNTF_RULES_SIZE - 5
   \<and> fst (ncntf_stream_allow_events ex_env ex_full_state (Some ''A'')
            (Some ''netconf-session-start'')) = EXIT_SUCCESS
   \<and> rules (streams (snd (ncntf_stream_allow_events ex_env ex_full_state (Some ''A'')
            (Some ''netconf-session-start''))) ! 0)
       = Some (ex_full_rules @ ''netconf-session-start'' @ [NL, NUL])
   \<and> length (ex_full_rules @ ''netconf-session-start'' @ [NL, NUL]) = NCNTF_RULES_SIZE + 18"
proof -
  let ?body = "replicate 1048570 (CHR ''a'')"
  have r: "rules (streams ex_full_state ! 0) = Some (?body @ NL # replicate 5 NUL)"
    by (simp add: ex_full_state_def ex_stream_def Let_def ex_full_rules_def NCNTF_RULES_SIZE_def)
  have f: "find_stream ''A'' (streams ex_full_state) = Some 0"
    by (simp add: ex_full_state_def)
  have b: "NUL \<notin> set ?body" "NL \<notin> set ?body" "?body \<noteq> []"
    by simp_all
  have "length ''netconf-session-start'' \<noteq> length ?body" by simp
  then have b4: "''netconf-session-start'' \<noteq> ?body" by metis
  note a = allow_events_line [OF f r b(1,2,3) _ b4, of ex_env]
  have c: "c_str (?body @ NL # replicate 5 NUL) = ?body @ [NL]"
    using b(1) by (simp add: c_str_line)
  have l: "length (streams ex_full_state) = 1" by (simp add: ex_full_state_def)
  have 1: "length (the (rules (streams ex_full_state ! 0))) = NCNTF_RULES_SIZE"
    by (simp add: r NCNTF_RULES_SIZE_def)
  have 2: "c_str (the (rules (streams ex_full_state ! 0))) = ex_full_rules"
    by (simp add: r c ex_full_rules_def)
  have 3: "length ex_full_rules = NCNTF_RULES_SIZE - 5"
    by (simp add: ex_full_rules_def NCNTF_RULES_SIZE_def)
  have 4: "fst (ncntf_stream_allow_events ex_env ex_full_state (Some ''A'')
            (Some ''netconf-session-start'')) = EXIT_SUCCESS"
    by (simp add: a)
  have 5: "rules (streams (snd (ncntf_stream_allow_events ex_env ex_full_state (Some ''A'')
            (Some ''netconf-session-start''))) ! 0)
       = Some (ex_full_rules @ ''netconf-session-start'' @ [NL, NUL])"
    by (simp add: a l ex_full_rules_def)
  have 6: "length (ex_full_rules @ ''netconf-session-start'' @ [NL, NUL]) = NCNTF_RULES_SIZE + 18"
    by (simp add: ex_full_rules_def NCNTF_RULES_SIZE_def)
  from 1 2 3 4 5 6 show ?thesis by blast
qed

section \<open>The file header\<close>

lemma le_bytes_numeral [simp]:
  "le_bytes (numeral k) n = char_of (n mod 256) # le_bytes (pred_numeral k) (n div 256)"
proof -
  have "numeral k = Suc (pred_numeral k)" by (rule numeral_eq_Suc)
  then show ?thesis by (metis le_bytes.simps(2))
qed

lemma char_of_nat_eq_iff: "char_of (n :: nat) = c \<longleftrightarrow> n mod 256 = of_char c"
  by (metis of_char_of char_of_char)

lemma read_fileheader_magic:
  assumes "\<not> open_fails e p" and "disk e p = Some f" and "8 \<le> length f"
    and "take 8 f \<noteq> MAGIC_NAME"
  shows "read_fileheader e p = None"
  using assms by (simp add: read_fileheader_def read_at_def Let_def fill_def)

lemma write_fileheader_new:
  assumes "fd_events s = None" and "\<not> open_fails e (d @ ''/'' @ name s @ ''.events'')"
    and "fst (write_retry (write_results e (name s)))"
  shows "write_fileheader e (Some d) s =
           (EXIT_SUCCESS,
            s\<lparr>fd_events := Some (d @ ''/'' @ name s @ ''.events''),
              events_file := take (length (header_buffer s))
                               (le_bytes 8 (unat (header_addr e)) @ uninit e ''stack''),
              events_pos := length (take (length (header_buffer s))
                               (le_bytes 8 (unat (header_addr e)) @ uninit e ''stack'')),
              data := length (take (length (header_buffer s))
                               (le_bytes 8 (unat (header_addr e)) @ uninit e ''stack''))\<rparr>)"
  using assms by (simp add: write_fileheader_def Let_def path_text_def)

lemma le_nat_2: "n < 65536 \<Longrightarrow> le_nat (le_bytes 2 n) = n"
  by (simp add: le_nat_le_bytes del: le_bytes_numeral)

text \<open>
  The header as the buffer holds it is sound: a file that starts with the contents of
  the buffer loads, and yields the name, description, replay flag and creation time
  of the stream, with the data offset just behind the header.
\<close>

lemma header_buffer_loads:
  assumes o: "\<not> open_fails e p" and d: "disk e p = Some (header_buffer s @ rest)"
    and n: "NUL \<notin> set (name s)" "length (name s) < 65535"
    and ds: "desc s = Some t" "NUL \<notin> set t" "length t < 65535"
  shows "read_fileheader e p =
           Some \<lparr>fd_events = Some p, fd_rules = None, name = name s, desc = Some t,
                 replay = replay s, created = created s, locked = 0, rules = None,
                 data = length (header_buffer s), events_file = header_buffer s @ rest,
                 events_pos = length (header_buffer s)\<rparr>"
proof -
  define l1 where "l1 = Suc (length (name s))"
  define l2 where "l2 = Suc (length t)"
  define B1 where "B1 = le_bytes 2 (unat MAGIC_VERSION)"
  define B2 where "B2 = le_bytes 2 l1"
  define B3 where "B3 = name s @ [NUL]"
  define B4 where "B4 = le_bytes 2 l2"
  define B5 where "B5 = t @ [NUL]"
  define B6 where "B6 = [char_of (unat (replay s))]"
  define B7 where "B7 = le_bytes 8 (unat (created s))"
  define F where "F = header_buffer s @ rest"
  have hb: "header_buffer s = MAGIC_NAME @ B1 @ B2 @ B3 @ B4 @ B5 @ B6 @ B7"
    using n ds
    by (simp add: header_buffer_def Let_def l1_def l2_def B1_def B2_def B3_def B4_def B5_def
        B6_def B7_def del: le_bytes_numeral)
  have len: "length MAGIC_NAME = 8" "length B1 = 2" "length B2 = 2" "length B3 = l1"
    "length B4 = 2" "length B5 = l2" "length B6 = 1" "length B7 = 8"
    by (simp_all add: MAGIC_NAME_def B1_def B2_def B3_def B4_def B5_def B6_def B7_def
        l1_def l2_def del: le_bytes_numeral)
  have r0: "read_at F 0 8 = MAGIC_NAME"
    using read_at_here [of MAGIC_NAME 8 "[]"] by (simp add: F_def hb len)
  have r1: "read_at F 8 2 = B1"
    using read_at_here [of B1 2 MAGIC_NAME "B2 @ B3 @ B4 @ B5 @ B6 @ B7 @ rest"]
    by (simp add: F_def hb len)
  have r2: "read_at F 10 2 = B2"
    using read_at_here [of B2 2 "MAGIC_NAME @ B1" "B3 @ B4 @ B5 @ B6 @ B7 @ rest"]
    by (simp add: F_def hb len)
  have r3: "read_at F 12 l1 = B3"
    using read_at_here [of B3 l1 "MAGIC_NAME @ B1 @ B2" "B4 @ B5 @ B6 @ B7 @ rest"]
    by (simp add: F_def hb len)
  have r4: "read_at F (12 + l1) 2 = B4"
    using read_at_here [of B4 2 "MAGIC_NAME @ B1 @ B2 @ B3" "B5 @ B6 @ B7 @ rest"]
    by (simp add: F_def hb len)
  have r5: "read_at F (14 + l1) l2 = B5"
    using read_at_here [of B5 l2 "MAGIC_NAME @ B1 @ B2 @ B3 @ B4" "B6 @ B7 @ rest"]
    by (simp add: F_def hb len)
  have r6: "read_at F (14 + l1 + l2) 1 = B6"
    using read_at_here [of B6 1 "MAGIC_NAME @ B1 @ B2 @ B3 @ B4 @ B5" "B7 @ rest"]
    by (simp add: F_def hb len ac_simps)
  have r7: "read_at F (Suc (14 + l1 + l2)) 8 = B7"
    using read_at_here [of B7 8 "MAGIC_NAME @ B1 @ B2 @ B3 @ B4 @ B5 @ B6" rest]
    by (simp add: F_def hb len ac_simps)
  have ne: "MAGIC_NAME \<noteq> []" "B1 \<noteq> []" "B2 \<noteq> []" "B3 \<noteq> []" "B4 \<noteq> []" "B5 \<noteq> []"
    "B6 \<noteq> []" "B7 \<noteq> []"
    by (simp_all add: MAGIC_NAME_def B1_def B2_def B3_def B4_def B5_def B6_def B7_def
        del: le_bytes_numeral)
  have v2: "le_nat B2 = l1" and v4: "le_nat B4 = l2"
    using n ds by (simp_all add: le_nat_2 l1_def l2_def B2_def B4_def)
  have c3: "c_str B3 = name s" and c5: "c_str B5 = t"
    using n ds by (simp_all add: B3_def B5_def)
  have v6: "(of_nat (le_nat B6) :: 8 word) = replay s"
    using unsigned_less [of "replay s", where 'a = nat] by (simp add: B6_def)
  have v7: "(of_nat (le_nat B7) :: 64 word) = created s"
    by (simp add: B7_def del: le_bytes_numeral)
  have tot: "length (header_buffer s) = 23 + (l1 + l2)"
    by (simp add: hb len)
  have d': "disk e p = Some F" using d by (simp add: F_def)
  have "read_fileheader e p =
           Some \<lparr>fd_events = Some p, fd_rules = None, name = name s, desc = Some t,
                 replay = replay s, created = created s, locked = 0, rules = None,
                 data = 23 + (l1 + l2), events_file = F, events_pos = 23 + (l1 + l2)\<rparr>"
    using o d' r0 r1 r2 r3 r4 r5 r6 r7 ne len v2 v4 c3 c5 v6 v7
    by (simp add: read_fileheader_def Let_def)
  then show ?thesis by (simp add: tot F_def)
qed

text \<open>
  What \<open>write_fileheader\<close> does write never loads, unless the address of the buffer
  happens to spell the magic bytes.
\<close>

lemma length_header_buffer: "8 \<le> length (header_buffer s)"
  by (simp add: header_buffer_def Let_def MAGIC_NAME_def)

lemma written_header_does_not_load:
  assumes "fd_events s = None" and "\<not> open_fails e (d @ ''/'' @ name s @ ''.events'')"
    and "fst (write_retry (write_results e (name s)))"
    and "le_bytes 8 (unat (header_addr e)) \<noteq> MAGIC_NAME"
  shows "read_fileheader
           (e\<lparr>disk := single_file (d @ ''/'' @ name s @ ''.events'')
                          (events_file (snd (write_fileheader e (Some d) s)))\<rparr>)
           (d @ ''/'' @ name s @ ''.events'') = None"
proof -
  let ?f = "take (length (header_buffer s))
              (le_bytes 8 (unat (header_addr e)) @ uninit e ''stack'')"
  have f: "events_file (snd (write_fileheader e (Some d) s)) = ?f"
    by (simp add: write_fileheader_new [OF assms(1-3)])
  have l: "8 \<le> length ?f" using length_header_buffer [of s] by simp
  have t: "take 8 ?f = le_bytes 8 (unat (header_addr e))"
    using length_header_buffer [of s] by (simp add: take_take min_def del: le_bytes_numeral)
  show ?thesis
    by (rule read_fileheader_magic [where f = ?f])
       (use assms(2,4) f l t in \<open>simp_all add: single_file_def\<close>)
qed

text \<open>
  Claim C1 fails on the code. \<open>ncntf_stream_new\<close> succeeds for the stream \<open>A\<close>, but its
  file holds the address of the header buffer (and the stack bytes behind it), not the
  header: the magic bytes are missing and \<open>read_fileheader\<close> on that file returns
  \<open>NULL\<close>.
\<close>

theorem header_roundtrip_fails:
  "fst (ncntf_stream_new ex_stack_env ex_empty_state ''A'' ''d'' 1) = EXIT_SUCCESS
   \<and> name (hd (streams (snd (ncntf_stream_new ex_stack_env ex_empty_state ''A'' ''d'' 1)))) = ''A''
   \<and> fd_events (hd (streams (snd (ncntf_stream_new ex_stack_env ex_empty_state ''A'' ''d'' 1))))
       = Some ''/var/run/netconf_events/A.events''
   \<and> events_file (hd (streams (snd (ncntf_stream_new ex_stack_env ex_empty_state ''A'' ''d'' 1))))
       = [CHR 0xA0, CHR 0xB2, CHR 0xA4, CHR 0xC8, CHR 0xD0, CHR 0x55, NUL, NUL]
         @ replicate 19 (CHR 0xAA)
   \<and> read_fileheader
         (ex_stack_env\<lparr>disk := single_file ''/var/run/netconf_events/A.events''
             (events_file (hd (streams (snd
                (ncntf_stream_new ex_stack_env ex_empty_state ''A'' ''d'' 1)))))\<rparr>)
         ''/var/run/netconf_events/A.events'' = None"
proof -
  let ?s = "\<lparr>fd_events = None, fd_rules = None, name = ''A'', desc = Some ''d'',
             replay = 1, created = 2000, locked = 0, rules = None,
             data = 0, events_file = [], events_pos = 0\<rparr>"
  have hb: "length (header_buffer ?s) = 27"
    by (simp add: header_buffer_def MAGIC_NAME_def Let_def)
  have w: "write_fileheader ex_stack_env (Some ''/var/run/netconf_events'') ?s =
             (EXIT_SUCCESS,
              ?s\<lparr>fd_events := Some ''/var/run/netconf_events/A.events'',
                 events_file := [CHR 0xA0, CHR 0xB2, CHR 0xA4, CHR 0xC8, CHR 0xD0, CHR 0x55, NUL, NUL]
                                @ replicate 19 (CHR 0xAA),
                 events_pos := 27, data := 27\<rparr>)"
    by (simp add: write_fileheader_def Let_def path_text_def hb ex_stack_env_def ex_env_def
        char_of_nat_eq_iff)
  let ?s1 = "?s\<lparr>fd_events := Some ''/var/run/netconf_events/A.events'',
                 events_file := [CHR 0xA0, CHR 0xB2, CHR 0xA4, CHR 0xC8, CHR 0xD0, CHR 0x55, NUL, NUL]
                                @ replicate 19 (CHR 0xAA),
                 events_pos := 27, data := 27\<rparr>"
  have m: "map_rules ex_stack_env (Some ''/var/run/netconf_events'') ?s1 =
             (EXIT_SUCCESS,
              ?s1\<lparr>fd_rules := Some ''/var/run/netconf_events/A.rules'',
                  rules := Some (replicate NCNTF_RULES_SIZE NUL)\<rparr>)"
    by (simp add: map_rules_def Let_def path_text_def ex_stack_env_def ex_env_def)
  have st: "ncntf_config ex_empty_state" "streams ex_empty_state = []"
    "streams_path ex_empty_state = Some ''/var/run/netconf_events''"
    by (simp_all add: ex_empty_state_def ex_state_def)
  have tn: "time_now ex_stack_env = 2000" by (simp add: ex_stack_env_def ex_env_def)
  have n: "ncntf_stream_new ex_stack_env ex_empty_state ''A'' ''d'' 1 =
             (EXIT_SUCCESS,
              ex_empty_state\<lparr>streams :=
                [?s1\<lparr>fd_rules := Some ''/var/run/netconf_events/A.rules'',
                    rules := Some (replicate NCNTF_RULES_SIZE NUL)\<rparr>]\<rparr>)"
    using w m by (simp add: ncntf_stream_new_def st tn)
  let ?f = "[CHR 0xA0, CHR 0xB2, CHR 0xA4, CHR 0xC8, CHR 0xD0, CHR 0x55, NUL, NUL]
              @ replicate 19 (CHR 0xAA)"
  have f: "events_file (hd (streams (snd (ncntf_stream_new ex_stack_env ex_empty_state ''A'' ''d'' 1))))
             = ?f"
    by (simp add: n)
  have o: "\<not> open_fails ex_stack_env p" for p
    by (simp add: ex_stack_env_def ex_env_def)
  have r: "read_fileheader
         (ex_stack_env\<lparr>disk := single_file ''/var/run/netconf_events/A.events''
             (events_file (hd (streams (snd
                (ncntf_stream_new ex_stack_env ex_empty_state ''A'' ''d'' 1)))))\<rparr>)
         ''/var/run/netconf_events/A.events'' = None"
    by (rule read_fileheader_magic [where f = ?f])
       (simp_all add: f o MAGIC_NAME_def single_file_def)
  show ?thesis
    using f r by (simp add: n)
qed

section \<open>The subscription check\<close>

text \<open>
  Claim C9. For a request whose parameters \<open>ncntf_subscription_get_params\<close> delivers
  and whose stream exists, \<open>ncntf_subscription_check\<close> answers, the faults taken in the
  order listed: missing-element \<open>startTime\<close> when \<open>stopTime\<close> is set and \<open>startTime\<close> is
  not; bad-element \<open>stopTime\<close> when both are set and \<open>startTime\<close> is after \<open>stopTime\<close>;
  bad-element \<open>startTime\<close> when \<open>startTime\<close> is set and after the current time (and the
  fault before does not apply); ok when none of the three applies.
\<close>

theorem subscription_check_times:
  assumes "ncntf_subscription_get_params e (Some rpc) = (0, stream, start, stop, flt)"
    and "ncntf_stream_get e st (Some stream) = (Some i, st1)"
  shows "(stop \<noteq> - 1 \<and> start = - 1 \<longrightarrow>
            fst (ncntf_subscription_check e st (Some rpc)) = missing_element ''startTime'')
       \<and> (stop \<noteq> - 1 \<and> start \<noteq> - 1 \<and> stop <s start \<longrightarrow>
            fst (ncntf_subscription_check e st (Some rpc)) = bad_element ''stopTime'')
       \<and> (start \<noteq> - 1 \<and> time_now e <s start \<and> \<not> (stop \<noteq> - 1 \<and> stop <s start) \<longrightarrow>
            fst (ncntf_subscription_check e st (Some rpc)) = bad_element ''startTime'')
       \<and> (\<not> (stop \<noteq> - 1 \<and> start = - 1) \<and> \<not> (stop \<noteq> - 1 \<and> start \<noteq> - 1 \<and> stop <s start)
          \<and> \<not> (start \<noteq> - 1 \<and> time_now e <s start) \<longrightarrow>
            fst (ncntf_subscription_check e st (Some rpc)) = nc_reply_ok)"
proof -
  have op: "rpc_op rpc = NC_OP_CREATESUBSCRIPTION"
    using assms(1) by (auto simp: ncntf_subscription_get_params_def Let_def split: if_splits)
  show ?thesis
    using assms op
    by (simp add: ncntf_subscription_check_def missing_element_def bad_element_def
        nc_err_new_def)
qed

lemma ex_get_params:
  "ncntf_subscription_get_params ex_env (Some (ex_rpc a b)) =
     (0, ''A'', (case a of [n] \<Rightarrow> ex_datetime2time n | _ \<Rightarrow> - 1),
      (case b of [n] \<Rightarrow> ex_datetime2time n | _ \<Rightarrow> - 1), None)"
  by (simp add: ncntf_subscription_get_params_def ex_rpc_def ex_env_def split: list.splits)

theorem subscription_check_times_witness:
  "fst (ncntf_subscription_check ex_env ex_state
          (Some (ex_rpc [] [''1970-01-01T00:08:20Z'']))) = missing_element ''startTime''
   \<and> fst (ncntf_subscription_check ex_env ex_state
          (Some (ex_rpc [''1970-01-01T00:16:40Z''] [''1970-01-01T00:08:20Z''])))
       = bad_element ''stopTime''
   \<and> fst (ncntf_subscription_check ex_env ex_state
          (Some (ex_rpc [''1970-01-01T01:23:20Z''] []))) = bad_element ''startTime''
   \<and> fst (ncntf_subscription_check ex_env ex_state
          (Some (ex_rpc [''1970-01-01T00:16:40Z''] []))) = nc_reply_ok"
proof -
  have now: "time_now ex_env = 2000" by (simp add: ex_env_def)
  have p1: "ncntf_subscription_get_params ex_env (Some (ex_rpc [] [''1970-01-01T00:08:20Z'']))
              = (0, ''A'', - 1, 500, None)"
    by (simp add: ex_get_params ex_datetime2time_def)
  have p2: "ncntf_subscription_get_params ex_env
              (Some (ex_rpc [''1970-01-01T00:16:40Z''] [''1970-01-01T00:08:20Z'']))
              = (0, ''A'', 1000, 500, None)"
    by (simp add: ex_get_params ex_datetime2time_def)
  have p3: "ncntf_subscription_get_params ex_env (Some (ex_rpc [''1970-01-01T01:23:20Z''] []))
              = (0, ''A'', 5000, - 1, None)"
    by (simp add: ex_get_params ex_datetime2time_def)
  have p4: "ncntf_subscription_get_params ex_env (Some (ex_rpc [''1970-01-01T00:16:40Z''] []))
              = (0, ''A'', 1000, - 1, None)"
    by (simp add: ex_get_params ex_datetime2time_def)
  from subscription_check_times [OF p1 ex_get_A] subscription_check_times [OF p2 ex_get_A]
    subscription_check_times [OF p3 ex_get_A] subscription_check_times [OF p4 ex_get_A] now
  show ?thesis by simp
qed

end
